theory Spec2Isabelle
  imports Complex_Main
begin

section \<open>Distributed random-search hyper-parameter optimisation (DistHPO\_rpv notebook)\<close>

text \<open>
  The notebook's cells are embedded as HOL functions. Cells are numbered from 0 in the
  order of the notebook, markdown cells included, so that the hyper-parameter
  configuration is cell 7, the submission loop cell 10, the collection of the histories
  cell 13, the score arrays cell 19 and the metric summary cell 26. Python exceptions
  are values of the type \<open>error\<close>, and a computation that may raise has the result
  type \<open>error + 'a\<close> (\<open>Inl\<close> is the raised exception). Python integers are
  \<open>int\<close>. Floating-point values that are only compared (validation accuracies, model
  outputs) are elements of a linear order or real numbers; NaN is outside the model.
  Training, plotting and the printed hyper-parameter lines belong to external libraries
  and are not embedded.
\<close>

subsection \<open>Exceptions\<close>

datatype error =
    KeyError string
  | IndexError
  | ValueError
  | RemoteError string
  | OSError string

definition bind_err :: "error + 'a \<Rightarrow> ('a \<Rightarrow> error + 'b) \<Rightarrow> error + 'b" where
  "bind_err m f = (case m of Inl e \<Rightarrow> Inl e | Inr x \<Rightarrow> f x)"

subsection \<open>String formatting and paths\<close>

text \<open>
  \<^verbatim>\<open>'%i' % n\<close> for a Python integer: the decimal digits, most significant first, with a
  leading minus sign for a negative number.
\<close>

definition digit_char :: "nat \<Rightarrow> char" where
  "digit_char d = ''0123456789'' ! d"

fun dec_nat :: "nat \<Rightarrow> string" where
  "dec_nat n = (if n < 10 then [digit_char n] else dec_nat (n div 10) @ [digit_char (n mod 10)])"

declare dec_nat.simps [simp del]

definition format_i :: "int \<Rightarrow> string" where
  "format_i i = (if i < 0 then CHR ''-'' # dec_nat (nat (- i)) else dec_nat (nat i))"

text \<open>
  \<^verbatim>\<open>os.path.join(a, b)\<close> of posixpath with one component: an absolute \<open>b\<close> replaces
  \<open>a\<close>; an empty \<open>a\<close> or one that ends with the separator takes \<open>b\<close> as it is;
  otherwise the separator is put between them.
\<close>

definition path_join :: "string \<Rightarrow> string \<Rightarrow> string" where
  "path_join a b =
     (if b \<noteq> [] \<and> hd b = CHR ''/'' then b
      else if a = [] \<or> last a = CHR ''/'' then a @ b
      else a @ ''/'' @ b)"

text \<open>
  Cell 7: \<^verbatim>\<open>checkpoint_dir = os.path.join(os.environ['SCRATCH'],
  'cori-interactive-dl/rpv_hpo_%i' % job_id)\<close>. The environment is a dict; an unset
  variable raises KeyError.
\<close>

definition checkpoint_dir :: "(string \<rightharpoonup> string) \<Rightarrow> int \<Rightarrow> error + string" where
  "checkpoint_dir environ job_id =
     (case environ ''SCRATCH'' of
        None \<Rightarrow> Inl (KeyError ''SCRATCH'')
      | Some scratch \<Rightarrow> Inr (path_join scratch (''cori-interactive-dl/rpv_hpo_'' @ format_i job_id)))"

text \<open>
  Cell 10: \<^verbatim>\<open>checkpoint_file = os.path.join(checkpoint_dir, 'model_%i.h5' % ihp)\<close>;
  the first argument is the checkpoint directory.
\<close>

definition checkpoint_file :: "string \<Rightarrow> int \<Rightarrow> string" where
  "checkpoint_file cdir ihp = path_join cdir (''model_'' @ format_i ihp @ ''.h5'')"

text \<open>Cell 28: \<^verbatim>\<open>model_file = os.path.join(checkpoint_dir, 'model_%i.h5' % i)\<close>\<close>

definition model_file :: "string \<Rightarrow> int \<Rightarrow> string" where
  "model_file cdir i = path_join cdir (''model_'' @ format_i i @ ''.h5'')"

subsection \<open>Sample Generator (cell 7)\<close>

text \<open>
  The state of numpy's global generator is the sequence of raw 32-bit outputs still to
  come; \<^verbatim>\<open>np.random.seed(0)\<close> fixes one such sequence. A draw takes the head.
\<close>

type_synonym rng = "nat \<Rightarrow> nat"

definition random_uint32 :: "rng \<Rightarrow> nat \<times> rng" where
  "random_uint32 g = (g 0 mod 2 ^ 32, \<lambda>i. g (Suc i))"

fun draws :: "(rng \<Rightarrow> 'a \<times> rng) \<Rightarrow> nat \<Rightarrow> rng \<Rightarrow> 'a list \<times> rng" where
  "draws d 0 g = ([], g)"
| "draws d (Suc n) g =
     (case d g of (x, g') \<Rightarrow> (case draws d n g' of (xs, g'') \<Rightarrow> (x # xs, g'')))"

text \<open>
  \<^verbatim>\<open>np.random.choice(a, size=n)\<close> (with replacement, uniform): a negative size and an
  empty \<open>a\<close> with a non-zero size raise ValueError; otherwise each item is \<open>a[idx]\<close> for
  a drawn index below \<open>len(a)\<close>. The library's bounded draw is represented by the raw
  output reduced modulo \<open>len(a)\<close>; numpy itself masks the raw output and rejects
  values out of range, so on one stream the indices of the model are not numpy's, and only
  the range of the index is meant.
\<close>

definition choice :: "'a list \<Rightarrow> int \<Rightarrow> rng \<Rightarrow> error + ('a list \<times> rng)" where
  "choice a sz g =
     (if sz < 0 then Inl ValueError
      else if a = [] \<and> sz \<noteq> 0 then Inl ValueError
      else Inr (draws (\<lambda>g. case random_uint32 g of (r, g') \<Rightarrow> (a ! (r mod length a), g'))
                  (nat sz) g))"

text \<open>
  \<^verbatim>\<open>np.random.rand(n)\<close>: each sample is built from two raw outputs \<open>a\<close>, \<open>b\<close> as
  \<open>((a >> 5) * 67108864 + (b >> 6)) / 9007199254740992\<close>, a multiple of \<open>2^-53\<close>
  that a double holds exactly.
\<close>

definition random_sample :: "rng \<Rightarrow> real \<times> rng" where
  "random_sample g =
     (case random_uint32 g of (a, g') \<Rightarrow>
        (case random_uint32 g' of (b, g'') \<Rightarrow>
           ((real (a div 32) * 67108864 + real (b div 64)) / 9007199254740992, g'')))"

definition rand :: "int \<Rightarrow> rng \<Rightarrow> error + (real list \<times> rng)" where
  "rand n g = (if n < 0 then Inl ValueError else Inr (draws random_sample (nat n) g))"

text \<open>\<^verbatim>\<open>np.stack([h1, h2, h3], axis=1)\<close> of three arrays of one length: row \<open>i\<close> is
  \<open>[h1[i], h2[i], h3[i]]\<close>.\<close>

definition stack3 :: "'a list \<Rightarrow> 'a list \<Rightarrow> 'a list \<Rightarrow> 'a list list" where
  "stack3 h1 h2 h3 = map (\<lambda>(a, b, c). [a, b, c]) (zip h1 (zip h2 h3))"

text \<open>The search points: the notebook's global arrays, one entry per trial.\<close>

record hpo_samples =
  conv_sizes :: "int list list"
  fc_sizes :: "int list list"
  lr :: "real list"
  dropout :: "real list"
  optimizer :: "string list"

definition sample_generator :: "int \<Rightarrow> rng \<Rightarrow> error + (hpo_samples \<times> rng)" where
  "sample_generator n_hpo_trials g0 =
     bind_err (choice [4, 8, 16, 32, 64] n_hpo_trials g0) (\<lambda>(h1, g1).
     bind_err (choice [4, 8, 16, 32, 64] n_hpo_trials g1) (\<lambda>(h2, g2).
     bind_err (choice [8, 16, 32, 64, 128] n_hpo_trials g2) (\<lambda>(h3, g3).
     bind_err (choice [32, 64, 128, 256] (n_hpo_trials * 1) g3) (\<lambda>(fc, g4).
     bind_err (choice [0.0001, 0.001, 0.01] n_hpo_trials g4) (\<lambda>(rates, g5).
     bind_err (rand n_hpo_trials g5) (\<lambda>(drops, g6).
     bind_err (choice [''Adadelta'', ''Adam'', ''Nadam''] n_hpo_trials g6) (\<lambda>(opts, g7).
       Inr (\<lparr>conv_sizes = stack3 h1 h2 h3, fc_sizes = map (\<lambda>x. [x]) fc, lr = rates,
             dropout = drops, optimizer = opts\<rparr>, g7))))))))"

subsection \<open>Dispatch Loop (cell 10)\<close>

text \<open>The shared run configuration: the notebook's globals of cells 6 and 7.\<close>

record run_config =
  input_dir :: string
  n_train :: int
  n_valid :: int
  batch_size :: int
  n_epochs :: int

text \<open>A job descriptor: the arguments of one \<^verbatim>\<open>build_and_train\<close> call.\<close>

record job_descriptor =
  arg_input_dir :: string
  arg_n_train :: int
  arg_n_valid :: int
  arg_conv_sizes :: "int list"
  arg_fc_sizes :: "int list"
  arg_dropout :: real
  arg_optimizer :: string
  arg_lr :: real
  arg_batch_size :: int
  arg_n_epochs :: int
  arg_checkpoint_file :: string

text \<open>\<^verbatim>\<open>a[i]\<close> on an array: a negative index counts from the end, and an index out of
  range raises IndexError.\<close>

definition index :: "'a list \<Rightarrow> int \<Rightarrow> error + 'a" where
  "index xs i =
     (if 0 \<le> i \<and> i < int (length xs) then Inr (xs ! nat i)
      else if i < 0 \<and> - int (length xs) \<le> i then Inr (xs ! nat (int (length xs) + i))
      else Inl IndexError)"

text \<open>\<^verbatim>\<open>range(n)\<close>: empty for \<open>n \<le> 0\<close>.\<close>

definition py_range :: "int \<Rightarrow> int list" where
  "py_range n = map int [0..<nat n]"

text \<open>
  The body of the loop up to the submission: the arrays are read at \<open>ihp\<close> (in the
  order of the source), the checkpoint path is computed and the arguments are put together.
\<close>

definition trial_job :: "run_config \<Rightarrow> string \<Rightarrow> hpo_samples \<Rightarrow> int \<Rightarrow> error + job_descriptor" where
  "trial_job cfg cdir hp ihp =
     bind_err (index (conv_sizes hp) ihp) (\<lambda>c.
     bind_err (index (fc_sizes hp) ihp) (\<lambda>f.
     bind_err (index (dropout hp) ihp) (\<lambda>d.
     bind_err (index (optimizer hp) ihp) (\<lambda>opt.
     bind_err (index (lr hp) ihp) (\<lambda>l.
       Inr \<lparr>arg_input_dir = input_dir cfg, arg_n_train = n_train cfg,
            arg_n_valid = n_valid cfg, arg_conv_sizes = c, arg_fc_sizes = f,
            arg_dropout = d, arg_optimizer = opt, arg_lr = l,
            arg_batch_size = batch_size cfg, arg_n_epochs = n_epochs cfg,
            arg_checkpoint_file = checkpoint_file cdir ihp\<rparr>)))))"

text \<open>
  The loop: \<open>lv_apply\<close> is the submission to the load-balanced view, which returns a
  handle at once and changes the state of the pool. Each round appends the handle to
  \<open>results\<close>.
\<close>

fun dispatch_loop ::
  "('p \<Rightarrow> job_descriptor \<Rightarrow> 'h \<times> 'p) \<Rightarrow> run_config \<Rightarrow> string \<Rightarrow> hpo_samples \<Rightarrow>
   int list \<Rightarrow> 'h list \<Rightarrow> 'p \<Rightarrow> error + ('h list \<times> 'p)" where
  "dispatch_loop lv_apply cfg cdir hp [] results lv = Inr (results, lv)"
| "dispatch_loop lv_apply cfg cdir hp (ihp # rest) results lv =
     (case trial_job cfg cdir hp ihp of
        Inl e \<Rightarrow> Inl e
      | Inr job \<Rightarrow>
          (case lv_apply lv job of
             (result, lv') \<Rightarrow> dispatch_loop lv_apply cfg cdir hp rest (results @ [result]) lv'))"

definition cell10 ::
  "('p \<Rightarrow> job_descriptor \<Rightarrow> 'h \<times> 'p) \<Rightarrow> run_config \<Rightarrow> string \<Rightarrow> hpo_samples \<Rightarrow>
   int \<Rightarrow> 'p \<Rightarrow> error + ('h list \<times> 'p)" where
  "cell10 lv_apply cfg cdir hp n_hpo_trials lv =
     dispatch_loop lv_apply cfg cdir hp (py_range n_hpo_trials) [] lv"

text \<open>
  Modelled from the spec: the Worker Pool Client, which is the external library's
  load-balanced view. A submission queues the unit of work inside the pool and returns a
  handle immediately. The pool is the queue of the submitted descriptors; the handle is
  the position of the submission in the queue.
\<close>

definition queue_apply :: "job_descriptor list \<Rightarrow> job_descriptor \<Rightarrow> nat \<times> job_descriptor list" where
  "queue_apply queue job = (length queue, queue @ [job])"

subsection \<open>Result Collector (cell 13)\<close>

text \<open>
  Modelled from the spec: the blocking fetch \<^verbatim>\<open>ar.get()\<close> of the external library.
  \<open>outcome\<close> gives what became of the job behind a handle: \<open>None\<close> when it never
  finishes (the fetch blocks forever), the name of the exception it raised, or its
  return value. A remote exception is re-raised locally.
\<close>

definition ar_get :: "('h \<Rightarrow> (string + 'r) option) \<Rightarrow> 'h \<Rightarrow> (error + 'r) option" where
  "ar_get outcome ar =
     (case outcome ar of
        None \<Rightarrow> None
      | Some (Inl ename) \<Rightarrow> Some (Inl (RemoteError ename))
      | Some (Inr v) \<Rightarrow> Some (Inr v))"

text \<open>
  \<^verbatim>\<open>histories = [ar.get() for ar in results]\<close>: the handles are fetched in list order;
  the comprehension has no handler, so the first exception leaves it, and a fetch that
  never returns (\<open>None\<close>) keeps it from returning.
\<close>

fun result_collector :: "('h \<Rightarrow> (error + 'r) option) \<Rightarrow> 'h list \<Rightarrow> (error + 'r list) option" where
  "result_collector get [] = Some (Inr [])"
| "result_collector get (ar # ars) =
     (case get ar of
        None \<Rightarrow> None
      | Some (Inl e) \<Rightarrow> Some (Inl e)
      | Some (Inr h) \<Rightarrow>
          (case result_collector get ars of
             None \<Rightarrow> None
           | Some (Inl e) \<Rightarrow> Some (Inl e)
           | Some (Inr hs) \<Rightarrow> Some (Inr (h # hs))))"

definition cell13 :: "('h \<Rightarrow> (string + 'r) option) \<Rightarrow> 'h list \<Rightarrow> (error + 'r list) option" where
  "cell13 outcome results = result_collector (ar_get outcome) results"

subsection \<open>Model selection (cells 19 to 21)\<close>

text \<open>
  A training history is the dict returned by \<^verbatim>\<open>history.history\<close>: metric name to the
  list of per-epoch values.
\<close>

type_synonym 'a history = "string \<rightharpoonup> 'a list"

text \<open>\<^verbatim>\<open>h['val_acc']\<close>: a missing key raises KeyError.\<close>

definition getitem :: "'a history \<Rightarrow> string \<Rightarrow> error + 'a list" where
  "getitem h k = (case h k of None \<Rightarrow> Inl (KeyError k) | Some v \<Rightarrow> Inr v)"

text \<open>\<^verbatim>\<open>xs[-1]\<close>: IndexError on the empty list.\<close>

definition last_item :: "'a list \<Rightarrow> error + 'a" where
  "last_item xs = (if xs = [] then Inl IndexError else Inr (last xs))"

text \<open>
  The builtin \<^verbatim>\<open>max(xs)\<close>: ValueError on the empty list, otherwise a left-to-right
  scan that replaces the running maximum only by a strictly greater item.
\<close>

definition py_max :: "'a::linorder list \<Rightarrow> error + 'a" where
  "py_max xs = (case xs of [] \<Rightarrow> Inl ValueError
     | x # rest \<Rightarrow> Inr (foldl (\<lambda>m v. if m < v then v else m) x rest))"

text \<open>A list comprehension whose element expression may raise: the first exception wins.\<close>

fun comprehension :: "('a \<Rightarrow> error + 'b) \<Rightarrow> 'a list \<Rightarrow> error + 'b list" where
  "comprehension f [] = Inr []"
| "comprehension f (x # xs) =
     (case f x of Inl e \<Rightarrow> Inl e
      | Inr y \<Rightarrow> (case comprehension f xs of Inl e \<Rightarrow> Inl e | Inr ys \<Rightarrow> Inr (y # ys)))"

text \<open>\<^verbatim>\<open>last_scores = np.array([h['val_acc'][-1] for h in histories])\<close>\<close>

definition last_scores :: "'a history list \<Rightarrow> error + 'a list" where
  "last_scores histories =
     comprehension (\<lambda>h. bind_err (getitem h ''val_acc'') last_item) histories"

text \<open>\<^verbatim>\<open>best_scores = np.array([max(h['val_acc']) for h in histories])\<close>\<close>

definition best_scores :: "'a::linorder history list \<Rightarrow> error + 'a list" where
  "best_scores histories =
     comprehension (\<lambda>h. bind_err (getitem h ''val_acc'') py_max) histories"

text \<open>
  \<^verbatim>\<open>ndarray.argmax()\<close> and \<^verbatim>\<open>ndarray.argmin()\<close>: ValueError on an empty array; otherwise
  the scan keeps the index of the running extremum and moves only on a strictly better
  item, so the first occurrence is returned.
\<close>

fun argmax_scan :: "'a::linorder list \<Rightarrow> nat \<Rightarrow> 'a \<Rightarrow> nat \<Rightarrow> nat" where
  "argmax_scan [] i mp mi = mi"
| "argmax_scan (x # xs) i mp mi =
     (if mp < x then argmax_scan xs (Suc i) x i else argmax_scan xs (Suc i) mp mi)"

fun argmin_scan :: "'a::linorder list \<Rightarrow> nat \<Rightarrow> 'a \<Rightarrow> nat \<Rightarrow> nat" where
  "argmin_scan [] i mp mi = mi"
| "argmin_scan (x # xs) i mp mi =
     (if x < mp then argmin_scan xs (Suc i) x i else argmin_scan xs (Suc i) mp mi)"

definition argmax :: "'a::linorder list \<Rightarrow> error + nat" where
  "argmax xs = (case xs of [] \<Rightarrow> Inl ValueError | x # rest \<Rightarrow> Inr (argmax_scan rest 1 x 0))"

definition argmin :: "'a::linorder list \<Rightarrow> error + nat" where
  "argmin xs = (case xs of [] \<Rightarrow> Inl ValueError | x # rest \<Rightarrow> Inr (argmin_scan rest 1 x 0))"

text \<open>
  The Model Selector: cell 19 computes both score arrays, cell 20 reports
  \<^verbatim>\<open>best_scores.argmax()\<close> as the best trial and cell 21 reports
  \<^verbatim>\<open>best_scores.argmin()\<close> as the worst one. The result is the pair (best, worst).
  The printing and plotting of the two cells are not part of the model.
\<close>

definition model_selector :: "'a::linorder history list \<Rightarrow> error + (nat \<times> nat)" where
  "model_selector histories =
     bind_err (last_scores histories) (\<lambda>ls.
     bind_err (best_scores histories) (\<lambda>bs.
     bind_err (argmax bs) (\<lambda>b.
     bind_err (argmin bs) (\<lambda>w. Inr (b, w)))))"

subsection \<open>Evaluator (cells 26 to 30)\<close>

text \<open>
  Modelled from the spec: the external training service persists the trained artifact of
  a job at the checkpoint path the job was given. The file store maps a path to the
  artifact stored there; \<open>train\<close> gives the artifact a job produces. The jobs run in
  some order the pool decides.
\<close>

definition persist :: "(job_descriptor \<Rightarrow> 'm) \<Rightarrow> job_descriptor \<Rightarrow> (string \<rightharpoonup> 'm) \<Rightarrow> (string \<rightharpoonup> 'm)" where
  "persist train job fs = fs(arg_checkpoint_file job \<mapsto> train job)"

definition run_jobs :: "(job_descriptor \<Rightarrow> 'm) \<Rightarrow> job_descriptor list \<Rightarrow> (string \<rightharpoonup> 'm) \<Rightarrow> (string \<rightharpoonup> 'm)" where
  "run_jobs train order fs = fold (persist train) order fs"

text \<open>
  Cell 28: \<^verbatim>\<open>i = best_scores.argmax()\<close>, the path of the model file, and
  \<^verbatim>\<open>keras.models.load_model(model_file)\<close>, which reads the file store and raises
  OSError when there is no file at the path.
\<close>

definition cell28 :: "(string \<rightharpoonup> 'm) \<Rightarrow> string \<Rightarrow> 'a::linorder list \<Rightarrow> error + 'm" where
  "cell28 fs cdir bs =
     bind_err (argmax bs) (\<lambda>i.
       case fs (model_file cdir (int i)) of
         None \<Rightarrow> Inl (OSError (model_file cdir (int i)))
       | Some model \<Rightarrow> Inr model)"

text \<open>
  The three functions of the external statistics library that \<^verbatim>\<open>summarize_metrics\<close>
  calls, each on the labels, the predictions and the optional sample weights. They are
  parameters of the model: functions of their arguments that return a number or raise.
\<close>

record 'l metrics =
  accuracy_score :: "'l list \<Rightarrow> bool list \<Rightarrow> real list option \<Rightarrow> error + real"
  precision_score :: "'l list \<Rightarrow> bool list \<Rightarrow> real list option \<Rightarrow> error + real"
  recall_score :: "'l list \<Rightarrow> bool list \<Rightarrow> real list option \<Rightarrow> error + real"

text \<open>
  A printed line: plain text, or a label followed by a metric value (the rounding of
  \<^verbatim>\<open>%.4f\<close> is not modelled; the line keeps the value).
\<close>

datatype line = Text string | Metric string real

text \<open>\<^verbatim>\<open>preds = outputs > threshold\<close>: the comparison of each output with the scalar.\<close>

definition preds :: "real list \<Rightarrow> real \<Rightarrow> bool list" where
  "preds outputs threshold = map (\<lambda>v. v > threshold) outputs"

text \<open>The default of the keyword argument \<^verbatim>\<open>threshold=0.5\<close>.\<close>

definition default_threshold :: real where
  "default_threshold = 0.5"

text \<open>
  \<^verbatim>\<open>summarize_metrics(labels, outputs, threshold, weights)\<close>: standard output is
  threaded through as the list of the lines printed so far. A metric that raises leaves
  the function there, after the lines already printed.
\<close>

definition summarize_metrics ::
  "'l metrics \<Rightarrow> 'l list \<Rightarrow> real list \<Rightarrow> real \<Rightarrow> real list option \<Rightarrow> line list \<Rightarrow>
   (error + unit) \<times> line list" where
  "summarize_metrics M labels outputs threshold weights out =
     (case accuracy_score M labels (preds outputs threshold) weights of
        Inl e \<Rightarrow> (Inl e, out)
      | Inr a \<Rightarrow>
          (case precision_score M labels (preds outputs threshold) weights of
             Inl e \<Rightarrow> (Inl e, out @ [Metric ''Accuracy:   '' a])
           | Inr p \<Rightarrow>
               (case recall_score M labels (preds outputs threshold) weights of
                  Inl e \<Rightarrow> (Inl e, out @ [Metric ''Accuracy:   '' a, Metric ''Purity:     '' p])
                | Inr r \<Rightarrow>
                    (Inr (), out @ [Metric ''Accuracy:   '' a, Metric ''Purity:     '' p,
                                    Metric ''Efficiency: '' r]))))"

text \<open>Cell 30: the unweighted summary, then the weighted one, both at the default threshold.\<close>

definition cell30 ::
  "'l metrics \<Rightarrow> 'l list \<Rightarrow> real list \<Rightarrow> real list \<Rightarrow> line list \<Rightarrow> (error + unit) \<times> line list" where
  "cell30 M test_labels test_output test_weights out =
     (case summarize_metrics M test_labels test_output default_threshold None
             (out @ [Text ''Unweighted metrics'']) of
        (Inl e, out') \<Rightarrow> (Inl e, out')
      | (Inr u, out') \<Rightarrow>
          summarize_metrics M test_labels test_output default_threshold (Some test_weights)
            (out' @ [Text ''Weighted metrics'']))"

subsection \<open>The metric summary in the interpreter's state (cell 26)\<close>

text \<open>
  Whether the summary draws random numbers or changes its arguments is a question about
  the state it runs in, so here that state is explicit. A numpy array lives on the heap
  and is passed by reference (an address); \<open>next_free\<close> is the first address not yet
  allocated; \<open>np_random\<close> is the state of numpy's global generator, which a call of
  \<^verbatim>\<open>np.random\<close> would advance; \<open>stdout\<close> holds the lines printed so far.
\<close>

datatype ndarray = FloatArray "real list" | IntArray "int list" | BoolArray "bool list"

record world =
  heap :: "nat \<Rightarrow> ndarray"
  next_free :: nat
  np_random :: rng
  stdout :: "line list"

text \<open>A new array object: it takes the first free address.\<close>

definition alloc :: "ndarray \<Rightarrow> world \<Rightarrow> nat \<times> world" where
  "alloc a w =
     (next_free w, w\<lparr>heap := (heap w)(next_free w := a), next_free := Suc (next_free w)\<rparr>)"

text \<open>
  \<^verbatim>\<open>a > t\<close> for an array and a scalar: a new boolean array; integers and booleans are
  compared by their numeric value.
\<close>

definition greater_than :: "ndarray \<Rightarrow> real \<Rightarrow> ndarray" where
  "greater_than a t =
     BoolArray (case a of
        FloatArray xs \<Rightarrow> map (\<lambda>v. v > t) xs
      | IntArray xs \<Rightarrow> map (\<lambda>v. real_of_int v > t) xs
      | BoolArray bs \<Rightarrow> map (\<lambda>b. (if b then 1 else 0) > t) bs)"

definition print_line :: "line \<Rightarrow> world \<Rightarrow> world" where
  "print_line l w = w\<lparr>stdout := stdout w @ [l]\<rparr>"

text \<open>
  A metric function of the external statistics library, called with the references of
  the labels, the predictions and the optional sample weights: it runs in the state, may
  change it, and returns a number or raises. The three functions the summary calls are
  parameters.
\<close>

type_synonym library_metric = "nat \<Rightarrow> nat \<Rightarrow> nat option \<Rightarrow> world \<Rightarrow> (error + real) \<times> world"

record library =
  lib_accuracy_score :: library_metric
  lib_precision_score :: library_metric
  lib_recall_score :: library_metric

text \<open>
  Modelled from the spec: the metrics are computed by an external statistics library,
  and evaluation is read-only and has no hidden randomness. For one library function
  this says that a call leaves the state as it found it, and that its result is fixed by
  the contents of the arrays it is given.
\<close>

definition reads_only :: "library_metric \<Rightarrow> bool" where
  "reads_only f \<longleftrightarrow>
     (\<forall>y_true y_pred sw w. snd (f y_true y_pred sw w) = w) \<and>
     (\<forall>y_true y_pred sw w y_true' y_pred' sw' w'.
        heap w y_true = heap w' y_true' \<and> heap w y_pred = heap w' y_pred' \<and>
        map_option (heap w) sw = map_option (heap w') sw' \<longrightarrow>
        fst (f y_true y_pred sw w) = fst (f y_true' y_pred' sw' w'))"

text \<open>
  \<^verbatim>\<open>summarize_metrics(labels, outputs, threshold, weights)\<close> in the state: the
  comparison allocates the array \<open>preds\<close>; each \<^verbatim>\<open>print\<close> first calls its metric and
  then appends a line; a metric that raises leaves the function in the state reached.
\<close>

definition summarize_metrics_io ::
  "library \<Rightarrow> nat \<Rightarrow> nat \<Rightarrow> real \<Rightarrow> nat option \<Rightarrow> world \<Rightarrow> (error + unit) \<times> world" where
  "summarize_metrics_io L labels outputs threshold weights w0 =
     (case alloc (greater_than (heap w0 outputs) threshold) w0 of
        (preds_ref, w1) \<Rightarrow>
          (case lib_accuracy_score L labels preds_ref weights w1 of
             (Inl e, w2) \<Rightarrow> (Inl e, w2)
           | (Inr a, w2) \<Rightarrow>
               (case lib_precision_score L labels preds_ref weights
                       (print_line (Metric ''Accuracy:   '' a) w2) of
                  (Inl e, w3) \<Rightarrow> (Inl e, w3)
                | (Inr p, w3) \<Rightarrow>
                    (case lib_recall_score L labels preds_ref weights
                            (print_line (Metric ''Purity:     '' p) w3) of
                       (Inl e, w4) \<Rightarrow> (Inl e, w4)
                     | (Inr r, w4) \<Rightarrow>
                         (Inr (), print_line (Metric ''Efficiency: '' r) w4)))))"

text \<open>
  What a run of the summary returns and prints, as a function of the results of the
  three metric calls: a line for every metric up to the first one that raised.
\<close>

definition report_of ::
  "error + real \<Rightarrow> error + real \<Rightarrow> error + real \<Rightarrow> (error + unit) \<times> line list" where
  "report_of ra rp rr =
     (case ra of
        Inl e \<Rightarrow> (Inl e, [])
      | Inr a \<Rightarrow>
          (case rp of
             Inl e \<Rightarrow> (Inl e, [Metric ''Accuracy:   '' a])
           | Inr p \<Rightarrow>
               (case rr of
                  Inl e \<Rightarrow> (Inl e, [Metric ''Accuracy:   '' a, Metric ''Purity:     '' p])
                | Inr r \<Rightarrow>
                    (Inr (), [Metric ''Accuracy:   '' a, Metric ''Purity:     '' p,
                              Metric ''Efficiency: '' r]))))"

text \<open>
  A library whose functions are given by their values: a call reads the three arrays
  off the heap (integer labels, boolean predictions, float weights), applies the
  function and leaves the state alone.
\<close>

definition ints_of :: "ndarray \<Rightarrow> int list" where
  "ints_of a = (case a of IntArray xs \<Rightarrow> xs | FloatArray xs \<Rightarrow> map floor xs
     | BoolArray bs \<Rightarrow> map (\<lambda>b. if b then 1 else 0) bs)"

definition bools_of :: "ndarray \<Rightarrow> bool list" where
  "bools_of a = (case a of BoolArray bs \<Rightarrow> bs | IntArray xs \<Rightarrow> map (\<lambda>v. v \<noteq> 0) xs
     | FloatArray xs \<Rightarrow> map (\<lambda>v. v \<noteq> 0) xs)"

definition floats_of :: "ndarray \<Rightarrow> real list" where
  "floats_of a = (case a of FloatArray xs \<Rightarrow> xs | IntArray xs \<Rightarrow> map real_of_int xs
     | BoolArray bs \<Rightarrow> map (\<lambda>b. if b then 1 else 0) bs)"

definition library_call ::
  "(int list \<Rightarrow> bool list \<Rightarrow> real list option \<Rightarrow> error + real) \<Rightarrow> library_metric" where
  "library_call m y_true y_pred sw w =
     (m (ints_of (heap w y_true)) (bools_of (heap w y_pred))
        (map_option (\<lambda>a. floats_of (heap w a)) sw), w)"

definition library_of :: "int metrics \<Rightarrow> library" where
  "library_of M =
     \<lparr>lib_accuracy_score = library_call (accuracy_score M),
      lib_precision_score = library_call (precision_score M),
      lib_recall_score = library_call (recall_score M)\<rparr>"

text \<open>
  The three metrics by their textbook definitions, for the worked example: the weighted
  share of samples whose prediction equals the label, the weighted share of the positive
  predictions that are positive, and the weighted share of the positives that are
  predicted positive (0 when there is none). Inputs of unequal length, and an accuracy
  over a total weight of 0, raise.
\<close>

definition weights_or_ones :: "nat \<Rightarrow> real list option \<Rightarrow> real list" where
  "weights_or_ones n sw = (case sw of None \<Rightarrow> replicate n 1 | Some v \<Rightarrow> v)"

definition weight_where :: "real list \<Rightarrow> bool list \<Rightarrow> real" where
  "weight_where ws bs = sum_list (map (\<lambda>(w, b). if b then w else 0) (zip ws bs))"

definition textbook_metric ::
  "(bool \<Rightarrow> bool \<Rightarrow> bool) \<Rightarrow> (bool \<Rightarrow> bool \<Rightarrow> bool) \<Rightarrow> bool \<Rightarrow>
   int list \<Rightarrow> bool list \<Rightarrow> real list option \<Rightarrow> error + real" where
  "textbook_metric hit base strict y_true y_pred sw =
     (let ws = weights_or_ones (length y_true) sw;
          t = map (\<lambda>v. v = 1) y_true;
          num = weight_where ws (map (\<lambda>(a, b). hit a b) (zip t y_pred));
          den = weight_where ws (map (\<lambda>(a, b). base a b) (zip t y_pred))
      in if length y_pred \<noteq> length y_true \<or> length ws \<noteq> length y_true then Inl ValueError
         else if den = 0 then (if strict then Inl ValueError else Inr 0)
         else Inr (num / den))"

definition textbook_metrics :: "int metrics" where
  "textbook_metrics =
     \<lparr>accuracy_score = textbook_metric (\<lambda>a b. a = b) (\<lambda>a b. True) True,
      precision_score = textbook_metric (\<lambda>a b. a \<and> b) (\<lambda>a b. b) False,
      recall_score = textbook_metric (\<lambda>a b. a \<and> b) (\<lambda>a b. a) False\<rparr>"

text \<open>
  The state of the worked example: labels at address 0, model outputs at address 1 (the
  third one equals the default threshold), sample weights at address 2.
\<close>

definition example_world :: world where
  "example_world =
     \<lparr>heap = (\<lambda>a. IntArray [])
         (0 := IntArray [1, 0, 1, 1], 1 := FloatArray [0.9, 0.6, 0.5, 0.2],
          2 := FloatArray [1, 2, 1, 1]),
      next_free = 3, np_random = (\<lambda>i. 7 * i + 3), stdout = []\<rparr>"

subsection \<open>The notebook's constants\<close>

text \<open>Cell 4: \<^verbatim>\<open>job_id = 24194075\<close>; cell 7: \<^verbatim>\<open>n_hpo_trials = 32\<close>; cells 6 and 7: the
  data and training configuration.\<close>

definition job_id :: int where
  "job_id = 24194075"

definition n_hpo_trials :: int where
  "n_hpo_trials = 32"

definition notebook_config :: run_config where
  "notebook_config =
     \<lparr>input_dir = ''/global/cscratch1/sd/sfarrell/atlas-rpv-images'', n_train = 64000,
      n_valid = 32000, batch_size = 64, n_epochs = 16\<rparr>"

text \<open>Search points for a worked example of four trials.\<close>

definition example_samples :: hpo_samples where
  "example_samples =
     \<lparr>conv_sizes = [[4, 8, 16], [8, 8, 32], [16, 4, 8], [64, 32, 128]],
      fc_sizes = [[32], [64], [128], [256]],
      lr = [0.001, 0.01, 0.0001, 0.001],
      dropout = [0.25, 0.5, 0.125, 0.75],
      optimizer = [''Adam'', ''Nadam'', ''Adadelta'', ''Adam'']\<rparr>"

text \<open>The synthetic histories of the end-to-end scenario: four trials, two epochs each.\<close>

definition synthetic_histories :: "real history list" where
  "synthetic_histories =
     [[''val_acc'' \<mapsto> [0.5, 0.6]], [''val_acc'' \<mapsto> [0.5, 0.9]],
      [''val_acc'' \<mapsto> [0.5, 0.55]], [''val_acc'' \<mapsto> [0.5, 0.7]]]"

subsection \<open>Properties of the Model Selector\<close>

lemma synthetic_best_scores: "best_scores synthetic_histories = Inr [0.6, 0.9, 0.55, 0.7]"
  by (simp add: best_scores_def synthetic_histories_def bind_err_def getitem_def py_max_def)

text \<open>
  C1: on the four synthetic histories with validation accuracies [0.5,0.6], [0.5,0.9],
  [0.5,0.55], [0.5,0.7] the Model Selector reports trial 1 as the best trial and trial 2
  as the worst trial.
\<close>

theorem model_selector_synthetic: "model_selector synthetic_histories = Inr (1, 2)"
  by (simp add: model_selector_def last_scores_def best_scores_def synthetic_histories_def
      bind_err_def getitem_def py_max_def last_item_def argmax_def argmin_def)

subsection \<open>Lemmas about the Model Selector\<close>

lemma bind_err_Inr_iff: "bind_err m f = Inr y \<longleftrightarrow> (\<exists>x. m = Inr x \<and> f x = Inr y)"
  by (cases m) (simp_all add: bind_err_def)

lemma comprehension_Inr_iff:
  "comprehension f xs = Inr ys \<longleftrightarrow> list_all2 (\<lambda>x y. f x = Inr y) xs ys"
proof (induction xs arbitrary: ys)
  case Nil
  show ?case by auto
next
  case (Cons x xs)
  show ?case
    by (cases ys; cases "f x"; cases "comprehension f xs") (auto simp: Cons.IH[symmetric])
qed

lemma py_max_Inr_iff: "py_max xs = Inr m \<longleftrightarrow> xs \<noteq> [] \<and> m = Max (set xs)"
proof (cases xs)
  case Nil
  then show ?thesis by (simp add: py_max_def)
next
  case (Cons x rest)
  have step: "(\<lambda>v m. if m < v then v else m) = (max :: 'a \<Rightarrow> 'a \<Rightarrow> 'a)"
    by (auto simp: fun_eq_iff max_def)
  have "foldl (\<lambda>m v. if m < v then v else m) x rest = fold max rest x"
    by (simp add: foldl_conv_fold step)
  also have "\<dots> = Max (set (x # rest))"
    by (rule Max.set_eq_fold[symmetric])
  finally show ?thesis using Cons by (auto simp: py_max_def)
qed

lemma argmax_scan_spec:
  assumes "ys = pre @ xs" "i = length pre" "mi < i" "mp = ys ! mi"
    "\<forall>j<i. ys ! j \<le> mp" "\<forall>j<mi. ys ! j < mp"
  shows "argmax_scan xs i mp mi < length ys \<and>
         (\<forall>j<length ys. ys ! j \<le> ys ! argmax_scan xs i mp mi) \<and>
         (\<forall>j<argmax_scan xs i mp mi. ys ! j < ys ! argmax_scan xs i mp mi)"
  using assms
proof (induction xs arbitrary: pre i mp mi)
  case Nil
  then show ?case by simp
next
  case (Cons x xs)
  have ys: "ys = (pre @ [x]) @ xs" using Cons.prems(1) by simp
  have len: "Suc i = length (pre @ [x])" using Cons.prems(2) by simp
  have xi: "ys ! i = x" using Cons.prems(1,2) by simp
  show ?case
  proof (cases "mp < x")
    case True
    have below: "\<forall>j<Suc i. ys ! j \<le> x"
      using Cons.prems(5) True xi by (auto simp: less_Suc_eq)
    have strict: "\<forall>j<i. ys ! j < x"
      using Cons.prems(5) True by auto
    show ?thesis
      using Cons.IH[OF ys len lessI xi[symmetric] below strict] True by simp
  next
    case False
    have mi: "mi < Suc i" using Cons.prems(3) by simp
    have below: "\<forall>j<Suc i. ys ! j \<le> mp"
      using Cons.prems(5) False xi by (auto simp: less_Suc_eq)
    show ?thesis
      using Cons.IH[OF ys len mi Cons.prems(4) below Cons.prems(6)] False by simp
  qed
qed

lemma argmax_Inr:
  assumes "xs \<noteq> []"
  shows "\<exists>b. argmax xs = Inr b \<and> b < length xs \<and> (\<forall>j<length xs. xs ! j \<le> xs ! b) \<and>
             (\<forall>j<b. xs ! j < xs ! b)"
proof -
  from assms obtain x rest where xs: "xs = x # rest" by (cases xs) auto
  have "argmax_scan rest 1 x 0 < length xs \<and>
        (\<forall>j<length xs. xs ! j \<le> xs ! argmax_scan rest 1 x 0) \<and>
        (\<forall>j<argmax_scan rest 1 x 0. xs ! j < xs ! argmax_scan rest 1 x 0)"
    by (rule argmax_scan_spec[where pre = "[x]"]) (simp_all add: xs)
  then show ?thesis by (simp add: argmax_def xs)
qed

lemma argmin_scan_spec:
  assumes "ys = pre @ xs" "i = length pre" "mi < i" "mp = ys ! mi"
    "\<forall>j<i. ys ! j \<ge> mp" "\<forall>j<mi. ys ! j > mp"
  shows "argmin_scan xs i mp mi < length ys \<and>
         (\<forall>j<length ys. ys ! j \<ge> ys ! argmin_scan xs i mp mi) \<and>
         (\<forall>j<argmin_scan xs i mp mi. ys ! j > ys ! argmin_scan xs i mp mi)"
  using assms
proof (induction xs arbitrary: pre i mp mi)
  case Nil
  then show ?case by simp
next
  case (Cons x xs)
  have ys: "ys = (pre @ [x]) @ xs" using Cons.prems(1) by simp
  have len: "Suc i = length (pre @ [x])" using Cons.prems(2) by simp
  have xi: "ys ! i = x" using Cons.prems(1,2) by simp
  show ?case
  proof (cases "x < mp")
    case True
    have below: "\<forall>j<Suc i. ys ! j \<ge> x"
      using Cons.prems(5) True xi by (auto simp: less_Suc_eq)
    have strict: "\<forall>j<i. ys ! j > x"
      using Cons.prems(5) True by auto
    show ?thesis
      using Cons.IH[OF ys len lessI xi[symmetric] below strict] True by simp
  next
    case False
    have mi: "mi < Suc i" using Cons.prems(3) by simp
    have below: "\<forall>j<Suc i. ys ! j \<ge> mp"
      using Cons.prems(5) False xi by (auto simp: less_Suc_eq)
    show ?thesis
      using Cons.IH[OF ys len mi Cons.prems(4) below Cons.prems(6)] False by simp
  qed
qed

lemma argmin_Inr:
  assumes "xs \<noteq> []"
  shows "\<exists>b. argmin xs = Inr b \<and> b < length xs \<and> (\<forall>j<length xs. xs ! j \<ge> xs ! b) \<and>
             (\<forall>j<b. xs ! j > xs ! b)"
proof -
  from assms obtain x rest where xs: "xs = x # rest" by (cases xs) auto
  have "argmin_scan rest 1 x 0 < length xs \<and>
        (\<forall>j<length xs. xs ! j \<ge> xs ! argmin_scan rest 1 x 0) \<and>
        (\<forall>j<argmin_scan rest 1 x 0. xs ! j > xs ! argmin_scan rest 1 x 0)"
    by (rule argmin_scan_spec[where pre = "[x]"]) (simp_all add: xs)
  then show ?thesis by (simp add: argmin_def xs)
qed



lemma best_score_of:
  assumes "h ''val_acc'' = Some v" "v \<noteq> []"
  shows "bind_err (getitem h ''val_acc'') py_max = Inr (Max (set v))"
  using assms by (simp add: bind_err_def getitem_def py_max_Inr_iff)

lemma last_score_of:
  assumes "h ''val_acc'' = Some v" "v \<noteq> []"
  shows "bind_err (getitem h ''val_acc'') last_item = Inr (last v)"
  using assms by (simp add: bind_err_def getitem_def last_item_def)

text \<open>
  C2: for a non-empty list of training histories, each with a validation-accuracy
  sequence of at least one epoch, the Model Selector returns a best and a worst index;
  the score at an index is the maximum of that history's validation accuracies, the score
  at the best index is at least the score at every index, the score at the worst index is
  at most the score at every index, and for a list of one history both indices are 0.
\<close>

theorem model_selector_argmax:
  assumes nonempty: "histories \<noteq> []"
    and wf: "\<forall>h\<in>set histories. \<exists>v. h ''val_acc'' = Some v \<and> v \<noteq> []"
  shows "\<exists>bs b w. best_scores histories = Inr bs \<and> model_selector histories = Inr (b, w) \<and>
           length bs = length histories \<and> b < length bs \<and> w < length bs \<and>
           (\<forall>j<length histories. \<exists>v. (histories ! j) ''val_acc'' = Some v \<and> bs ! j = Max (set v)) \<and>
           (\<forall>j<length bs. bs ! j \<le> bs ! b) \<and>
           (\<forall>j<length bs. bs ! w \<le> bs ! j) \<and>
           (length histories = 1 \<longrightarrow> b = 0 \<and> w = 0)"
proof -
  let ?bs = "map (\<lambda>h. Max (set (the (h ''val_acc'')))) histories"
  let ?ls = "map (\<lambda>h. last (the (h ''val_acc''))) histories"
  have wfn: "\<exists>v. (histories ! j) ''val_acc'' = Some v \<and> v \<noteq> []" if "j < length histories" for j
    using wf that nth_mem by blast
  have b1: "bind_err (getitem (histories ! j) ''val_acc'') py_max = Inr (?bs ! j)"
    if "j < length histories" for j
  proof -
    from wfn[OF that] obtain v where v: "(histories ! j) ''val_acc'' = Some v" "v \<noteq> []" by blast
    show ?thesis using best_score_of[of "histories ! j" v] v that by simp
  qed
  have l1: "bind_err (getitem (histories ! j) ''val_acc'') last_item = Inr (?ls ! j)"
    if "j < length histories" for j
  proof -
    from wfn[OF that] obtain v where v: "(histories ! j) ''val_acc'' = Some v" "v \<noteq> []" by blast
    show ?thesis using last_score_of[of "histories ! j" v] v that by simp
  qed
  have bs: "best_scores histories = Inr ?bs"
    unfolding best_scores_def comprehension_Inr_iff list_all2_conv_all_nth
    using b1 by simp
  have ls: "last_scores histories = Inr ?ls"
    unfolding last_scores_def comprehension_Inr_iff list_all2_conv_all_nth
    using l1 by simp
  have ne: "?bs \<noteq> []" using nonempty by simp
  from argmax_Inr[OF ne] obtain b where b: "argmax ?bs = Inr b" "b < length ?bs"
    "\<forall>j<length ?bs. ?bs ! j \<le> ?bs ! b" by blast
  from argmin_Inr[OF ne] obtain w where w: "argmin ?bs = Inr w" "w < length ?bs"
    "\<forall>j<length ?bs. ?bs ! j \<ge> ?bs ! w" by blast
  have sel: "model_selector histories = Inr (b, w)"
    by (simp only: model_selector_def bs ls b(1) w(1) bind_err_def sum.case)
  have scal: "\<exists>v. (histories ! j) ''val_acc'' = Some v \<and> ?bs ! j = Max (set v)"
    if "j < length histories" for j
  proof -
    from wfn[OF that] obtain v where v: "(histories ! j) ''val_acc'' = Some v" by blast
    then show ?thesis using that by simp
  qed
  have one: "length histories = 1 \<longrightarrow> b = 0 \<and> w = 0"
    using b(2) w(2) by auto
  have len: "length ?bs = length histories" by simp
  show ?thesis
    using bs sel len b(2,3) w(2,3) scal one by blast
qed


text \<open>The theorem at the four synthetic histories.\<close>

theorem model_selector_argmax_witness:
  "synthetic_histories \<noteq> [] \<and>
   (\<exists>bs b w. best_scores synthetic_histories = Inr bs \<and>
      model_selector synthetic_histories = Inr (b, w) \<and>
      length bs = length synthetic_histories \<and> b < length bs \<and> w < length bs \<and>
      (\<forall>j<length synthetic_histories.
          \<exists>v. (synthetic_histories ! j) ''val_acc'' = Some v \<and> bs ! j = Max (set v)) \<and>
      (\<forall>j<length bs. bs ! j \<le> bs ! b) \<and>
      (\<forall>j<length bs. bs ! w \<le> bs ! j) \<and>
      (length synthetic_histories = 1 \<longrightarrow> b = 0 \<and> w = 0))"
proof -
  have nonempty: "synthetic_histories \<noteq> []"
    by (simp add: synthetic_histories_def)
  have wf: "\<forall>h\<in>set synthetic_histories. \<exists>v. h ''val_acc'' = Some v \<and> v \<noteq> []"
    by (simp add: synthetic_histories_def)
  show ?thesis
    using nonempty model_selector_argmax[OF nonempty wf] by (intro conjI) assumption+
qed

subsection \<open>Lemmas about formatting and paths\<close>

lemma digit_char_cases:
  assumes "(d::nat) < 10"
  shows "d = 0 \<or> d = 1 \<or> d = 2 \<or> d = 3 \<or> d = 4 \<or> d = 5 \<or> d = 6 \<or> d = 7 \<or> d = 8 \<or> d = 9"
  using assms by arith

lemma digit_char_inj:
  assumes "d < 10" "e < 10" "digit_char d = digit_char e"
  shows "d = e"
  using digit_char_cases[OF assms(1)] digit_char_cases[OF assms(2)] assms(3)
  by (elim disjE) (simp_all add: digit_char_def)

lemma digit_char_not_special:
  assumes "d < 10"
  shows "digit_char d \<noteq> CHR ''/'' \<and> digit_char d \<noteq> CHR ''-''"
  using digit_char_cases[OF assms] by (elim disjE) (simp_all add: digit_char_def)

lemma dec_nat_nonempty: "dec_nat n \<noteq> []"
  by (subst dec_nat.simps) simp

lemma dec_nat_nonempty': "[] \<noteq> dec_nat n"
  using dec_nat_nonempty[of n] by simp

lemma dec_nat_last: "last (dec_nat n) = digit_char (n mod 10)"
  by (subst dec_nat.simps) simp

lemma dec_nat_hd_digit: "\<exists>d<10. hd (dec_nat n) = digit_char d"
proof (induction n rule: dec_nat.induct)
  case (1 n)
  show ?case
  proof (cases "n < 10")
    case True
    then show ?thesis by (subst dec_nat.simps) auto
  next
    case False
    then have "hd (dec_nat n) = hd (dec_nat (n div 10))"
      by (subst dec_nat.simps) (simp add: dec_nat_nonempty)
    then show ?thesis using 1 False by simp
  qed
qed

lemma dec_nat_inj: "dec_nat m = dec_nat n \<Longrightarrow> m = n"
proof (induction m arbitrary: n rule: dec_nat.induct)
  case (1 m)
  have m: "dec_nat m = (if m < 10 then [digit_char m] else dec_nat (m div 10) @ [digit_char (m mod 10)])"
    by (rule dec_nat.simps)
  have n: "dec_nat n = (if n < 10 then [digit_char n] else dec_nat (n div 10) @ [digit_char (n mod 10)])"
    by (rule dec_nat.simps)
  show ?case
  proof (cases "m < 10")
    case mlt: True
    show ?thesis
    proof (cases "n < 10")
      case True
      then show ?thesis using mlt m n "1.prems" by (simp add: digit_char_inj)
    next
      case False
      then show ?thesis using mlt m n "1.prems" by (simp add: dec_nat_nonempty)
    qed
  next
    case mge: False
    show ?thesis
    proof (cases "n < 10")
      case True
      then show ?thesis using mge m n "1.prems" by (simp add: dec_nat_nonempty')
    next
      case False
      from mge False m n "1.prems"
      have eq: "dec_nat (m div 10) = dec_nat (n div 10)"
        and dig: "digit_char (m mod 10) = digit_char (n mod 10)" by simp_all
      have "m div 10 = n div 10" using "1.IH"[OF mge eq] .
      moreover have "m mod 10 = n mod 10" using dig by (simp add: digit_char_inj)
      ultimately show ?thesis by (metis div_mult_mod_eq)
    qed
  qed
qed

lemma format_i_nonempty: "format_i i \<noteq> []"
  by (simp add: format_i_def dec_nat_nonempty)

lemma format_i_last: "last (format_i i) \<noteq> CHR ''/''"
  by (simp add: format_i_def dec_nat_nonempty dec_nat_last digit_char_not_special)

lemma format_i_inj: "format_i i = format_i j \<Longrightarrow> i = j"
proof -
  assume eq: "format_i i = format_i j"
  have nodash: "hd (dec_nat n) \<noteq> CHR ''-''" for n
  proof -
    obtain d where d: "d < 10" "hd (dec_nat n) = digit_char d"
      using dec_nat_hd_digit[of n] by blast
    show ?thesis using digit_char_not_special[OF d(1)] d(2) by simp
  qed
  have nodash': "dec_nat n \<noteq> CHR ''-'' # s" for n s
    using nodash[of n] by auto
  show "i = j"
  proof (cases "i < 0")
    case ineg: True
    show ?thesis
    proof (cases "j < 0")
      case True
      then have "nat (- i) = nat (- j)" using ineg eq by (simp add: format_i_def dec_nat_inj)
      then show ?thesis using ineg True by simp
    next
      case False
      then show ?thesis using ineg eq nodash'[of "nat j" "dec_nat (nat (- i))"] by (simp add: format_i_def)
    qed
  next
    case ipos: False
    show ?thesis
    proof (cases "j < 0")
      case True
      then show ?thesis using ipos eq nodash'[of "nat i" "dec_nat (nat (- j))"] by (simp add: format_i_def)
    next
      case False
      then have "nat i = nat j" using ipos eq by (simp add: format_i_def dec_nat_inj)
      then show ?thesis using ipos False by simp
    qed
  qed
qed

lemma path_join_relative:
  assumes "b \<noteq> []" "hd b \<noteq> CHR ''/''"
  shows "path_join a b = (if a = [] \<or> last a = CHR ''/'' then a @ b else a @ ''/'' @ b)"
  using assms by (simp add: path_join_def)

lemma checkpoint_file_eq:
  "checkpoint_file cdir ihp =
     (if cdir = [] \<or> last cdir = CHR ''/'' then cdir @ ''model_'' @ format_i ihp @ ''.h5''
      else cdir @ ''/model_'' @ format_i ihp @ ''.h5'')"
  by (simp add: checkpoint_file_def path_join_def)

lemma checkpoint_file_inj: "checkpoint_file cdir i = checkpoint_file cdir j \<longleftrightarrow> i = j"
proof
  assume "checkpoint_file cdir i = checkpoint_file cdir j"
  then have "format_i i = format_i j"
    by (simp add: checkpoint_file_eq split: if_splits)
  then show "i = j" by (rule format_i_inj)
qed simp

lemma checkpoint_dir_shape:
  assumes "checkpoint_dir environ jid = Inr cdir"
  shows "cdir \<noteq> [] \<and> last cdir \<noteq> CHR ''/''"
proof -
  from assms obtain scratch where
    cdir: "cdir = path_join scratch (''cori-interactive-dl/rpv_hpo_'' @ format_i jid)"
    by (auto simp: checkpoint_dir_def split: option.splits)
  have "last cdir = last (format_i jid)"
    unfolding cdir by (simp add: path_join_def format_i_nonempty)
  moreover have "cdir \<noteq> []" unfolding cdir by (simp add: path_join_def)
  ultimately show ?thesis by (simp add: format_i_last)
qed

lemma checkpoint_file_example: "checkpoint_file ''/scratch/rpv_hpo_7'' 12 = ''/scratch/rpv_hpo_7/model_12.h5''"
  by code_simp

lemma format_i_example: "format_i (-305) = ''-305''"
  by code_simp

subsection \<open>Lemmas about the Sample Generator\<close>

lemma draws_length: "length (fst (draws d n g)) = n"
proof (induction n arbitrary: g)
  case 0
  show ?case by simp
next
  case (Suc n)
  obtain x g' where dg: "d g = (x, g')" by (cases "d g")
  obtain xs g'' where dr: "draws d n g' = (xs, g'')" by (cases "draws d n g'")
  have "length xs = n" using Suc[of g'] dr by simp
  then show ?case using dg dr by simp
qed

lemma draws_all:
  assumes "\<And>g. P (fst (d g))"
  shows "\<forall>x\<in>set (fst (draws d n g)). P x"
proof (induction n arbitrary: g)
  case 0
  show ?case by simp
next
  case (Suc n)
  obtain x g' where dg: "d g = (x, g')" by (cases "d g")
  obtain xs g'' where dr: "draws d n g' = (xs, g'')" by (cases "draws d n g'")
  have "P x" using assms[of g] dg by simp
  moreover have "\<forall>y\<in>set xs. P y" using Suc[of g'] dr by simp
  ultimately show ?case using dg dr by simp
qed

lemma choice_Inr:
  assumes "0 \<le> n" "a \<noteq> []"
  shows "\<exists>xs g'. choice a n g = Inr (xs, g') \<and> length xs = nat n \<and> set xs \<subseteq> set a"
proof -
  let ?d = "\<lambda>g. case random_uint32 g of (r, g') \<Rightarrow> (a ! (r mod length a), g')"
  obtain xs g' where dr: "draws ?d (nat n) g = (xs, g')" by (cases "draws ?d (nat n) g")
  have "fst (?d g) \<in> set a" for g
    using assms(2) by (simp add: random_uint32_def)
  then have "\<forall>x\<in>set (fst (draws ?d (nat n) g)). x \<in> set a"
    by (rule draws_all)
  then have "set xs \<subseteq> set a" using dr by auto
  moreover have "length xs = nat n" using draws_length[of ?d "nat n" g] dr by simp
  moreover have "choice a n g = Inr (xs, g')" using assms dr by (simp add: choice_def)
  ultimately show ?thesis by blast
qed

lemma random_sample_range: "0 \<le> fst (random_sample g) \<and> fst (random_sample g) < 1"
proof -
  obtain a g' where a: "random_uint32 g = (a, g')" by (cases "random_uint32 g")
  obtain b g'' where b: "random_uint32 g' = (b, g'')" by (cases "random_uint32 g'")
  have "a < 2 ^ 32" using a by (auto simp: random_uint32_def)
  then have a27: "a div 32 < 134217728" by simp
  have "b < 2 ^ 32" using b by (auto simp: random_uint32_def)
  then have b26: "b div 64 < 67108864" by simp
  have "(a div 32) * 67108864 + b div 64 < 9007199254740992"
    using a27 b26 by simp
  then have "real ((a div 32) * 67108864 + b div 64) < 9007199254740992"
    by (metis of_nat_less_iff of_nat_numeral)
  then have "(real (a div 32) * 67108864 + real (b div 64)) / 9007199254740992 < 1"
    by simp
  moreover have "0 \<le> (real (a div 32) * 67108864 + real (b div 64)) / 9007199254740992"
    by simp
  ultimately show ?thesis by (simp add: random_sample_def a b)
qed

lemma rand_Inr:
  assumes "0 \<le> n"
  shows "\<exists>xs g'. rand n g = Inr (xs, g') \<and> length xs = nat n \<and> (\<forall>x\<in>set xs. 0 \<le> x \<and> x < 1)"
proof -
  obtain xs g' where dr: "draws random_sample (nat n) g = (xs, g')"
    by (cases "draws random_sample (nat n) g")
  have "\<forall>x\<in>set (fst (draws random_sample (nat n) g)). 0 \<le> x \<and> x < 1"
    by (rule draws_all) (rule random_sample_range)
  then have "\<forall>x\<in>set xs. 0 \<le> x \<and> x < 1" using dr by simp
  moreover have "length xs = nat n" using draws_length[of random_sample "nat n" g] dr by simp
  moreover have "rand n g = Inr (xs, g')" using assms dr by (simp add: rand_def)
  ultimately show ?thesis by blast
qed

lemma stack3_length:
  assumes "length h1 = n" "length h2 = n" "length h3 = n"
  shows "length (stack3 h1 h2 h3) = n"
  using assms by (simp add: stack3_def)

lemma stack3_rows:
  assumes "set h1 \<subseteq> A" "set h2 \<subseteq> B" "set h3 \<subseteq> C"
  shows "\<forall>row\<in>set (stack3 h1 h2 h3). \<exists>a b c. row = [a, b, c] \<and> a \<in> A \<and> b \<in> B \<and> c \<in> C"
proof
  fix row assume "row \<in> set (stack3 h1 h2 h3)"
  then obtain a b c where row: "row = [a, b, c]" and z: "(a, b, c) \<in> set (zip h1 (zip h2 h3))"
    by (auto simp: stack3_def)
  have "a \<in> set h1" using z by (rule set_zip_leftD)
  moreover have bc: "(b, c) \<in> set (zip h2 h3)" using z by (rule set_zip_rightD)
  moreover have "b \<in> set h2" using bc by (rule set_zip_leftD)
  moreover have "c \<in> set h3" using bc by (rule set_zip_rightD)
  ultimately show "\<exists>a b c. row = [a, b, c] \<and> a \<in> A \<and> b \<in> B \<and> c \<in> C"
    using row assms by blast
qed

lemma sample_generator_total:
  assumes "0 \<le> N"
  shows "\<exists>hp g'. sample_generator N g = Inr (hp, g') \<and>
      length (conv_sizes hp) = nat N \<and> length (fc_sizes hp) = nat N \<and>
      length (lr hp) = nat N \<and> length (dropout hp) = nat N \<and>
      length (optimizer hp) = nat N \<and>
      (\<forall>row\<in>set (conv_sizes hp). \<exists>a b c. row = [a, b, c] \<and> a \<in> {4, 8, 16, 32, 64} \<and>
          b \<in> {4, 8, 16, 32, 64} \<and> c \<in> {8, 16, 32, 64, 128}) \<and>
      (\<forall>row\<in>set (fc_sizes hp). \<exists>x. row = [x] \<and> x \<in> {32, 64, 128, 256}) \<and>
      (\<forall>r\<in>set (lr hp). r \<in> {0.0001, 0.001, 0.01}) \<and>
      (\<forall>d\<in>set (dropout hp). 0 \<le> d \<and> d < 1) \<and>
      (\<forall>s\<in>set (optimizer hp). s \<in> {''Adadelta'', ''Adam'', ''Nadam''})"
proof -
  obtain h1 g1 where h1: "choice [4, 8, 16, 32, 64] N g = Inr (h1, g1)"
    "length h1 = nat N" "set h1 \<subseteq> set [4, 8, 16, 32, 64 :: int]"
    using choice_Inr[OF assms, of "[4, 8, 16, 32, 64 :: int]" g] by auto
  obtain h2 g2 where h2: "choice [4, 8, 16, 32, 64] N g1 = Inr (h2, g2)"
    "length h2 = nat N" "set h2 \<subseteq> set [4, 8, 16, 32, 64 :: int]"
    using choice_Inr[OF assms, of "[4, 8, 16, 32, 64 :: int]" g1] by auto
  obtain h3 g3 where h3: "choice [8, 16, 32, 64, 128] N g2 = Inr (h3, g3)"
    "length h3 = nat N" "set h3 \<subseteq> set [8, 16, 32, 64, 128 :: int]"
    using choice_Inr[OF assms, of "[8, 16, 32, 64, 128 :: int]" g2] by auto
  have N1: "0 \<le> N * 1" using assms by simp
  obtain fc g4 where fc: "choice [32, 64, 128, 256] (N * 1) g3 = Inr (fc, g4)"
    "length fc = nat N" "set fc \<subseteq> set [32, 64, 128, 256 :: int]"
    using choice_Inr[OF N1, of "[32, 64, 128, 256 :: int]" g3] by auto
  obtain rates g5 where rates: "choice [0.0001, 0.001, 0.01] N g4 = Inr (rates, g5)"
    "length rates = nat N" "set rates \<subseteq> set [0.0001, 0.001, 0.01 :: real]"
    using choice_Inr[OF assms, of "[0.0001, 0.001, 0.01 :: real]" g4] by auto
  obtain drops g6 where drops: "rand N g5 = Inr (drops, g6)"
    "length drops = nat N" "\<forall>x\<in>set drops. 0 \<le> x \<and> x < 1"
    using rand_Inr[OF assms, of g5] by auto
  obtain opts g7 where opts: "choice [''Adadelta'', ''Adam'', ''Nadam''] N g6 = Inr (opts, g7)"
    "length opts = nat N" "set opts \<subseteq> set [''Adadelta'', ''Adam'', ''Nadam'']"
    using choice_Inr[OF assms, of "[''Adadelta'', ''Adam'', ''Nadam'']" g6] by auto
  let ?hp = "\<lparr>conv_sizes = stack3 h1 h2 h3, fc_sizes = map (\<lambda>x. [x]) fc, lr = rates,
              dropout = drops, optimizer = opts\<rparr>"
  have gen: "sample_generator N g = Inr (?hp, g7)"
    unfolding sample_generator_def
    by (simp only: h1(1) h2(1) h3(1) fc(1) rates(1) drops(1) opts(1) bind_err_def sum.case prod.case)
  have conv: "\<forall>row\<in>set (stack3 h1 h2 h3). \<exists>a b c. row = [a, b, c] \<and> a \<in> set [4, 8, 16, 32, 64] \<and>
          b \<in> set [4, 8, 16, 32, 64] \<and> c \<in> set [8, 16, 32, 64, 128]"
    by (rule stack3_rows[OF h1(3) h2(3) h3(3)])
  have fcs: "\<forall>row\<in>set (map (\<lambda>x. [x]) fc). \<exists>x. row = [x] \<and> x \<in> {32, 64, 128, 256}"
    using fc(3) by auto
  have r: "\<forall>r\<in>set rates. r \<in> {0.0001, 0.001, 0.01}" using rates(3) by auto
  have s: "\<forall>s\<in>set opts. s \<in> {''Adadelta'', ''Adam'', ''Nadam''}" using opts(3) by auto
  have "length (conv_sizes ?hp) = nat N \<and> length (fc_sizes ?hp) = nat N \<and>
      length (lr ?hp) = nat N \<and> length (dropout ?hp) = nat N \<and>
      length (optimizer ?hp) = nat N"
    by (simp add: stack3_length h1(2) h2(2) h3(2) fc(2) rates(2) drops(2) opts(2))
  moreover have "\<forall>row\<in>set (conv_sizes ?hp). \<exists>a b c. row = [a, b, c] \<and> a \<in> {4, 8, 16, 32, 64} \<and>
          b \<in> {4, 8, 16, 32, 64} \<and> c \<in> {8, 16, 32, 64, 128}"
    using conv by simp
  moreover have "\<forall>row\<in>set (fc_sizes ?hp). \<exists>x. row = [x] \<and> x \<in> {32, 64, 128, 256}"
    using fcs by simp
  moreover have "\<forall>r\<in>set (lr ?hp). r \<in> {0.0001, 0.001, 0.01}" using r by simp
  moreover have "\<forall>d\<in>set (dropout ?hp). 0 \<le> d \<and> d < 1" using drops(3) by simp
  moreover have "\<forall>s\<in>set (optimizer ?hp). s \<in> {''Adadelta'', ''Adam'', ''Nadam''}" using s by simp
  ultimately show ?thesis using gen by blast
qed

subsection \<open>Lemmas about the Dispatch Loop\<close>

lemma sample_generator_lengths:
  assumes "0 \<le> N"
  shows "\<exists>hp g'. sample_generator N g = Inr (hp, g') \<and>
      length (conv_sizes hp) = nat N \<and> length (fc_sizes hp) = nat N \<and>
      length (dropout hp) = nat N \<and> length (optimizer hp) = nat N \<and>
      length (lr hp) = nat N"
  using sample_generator_total[OF assms, of g]
  by (elim exE conjE, intro exI conjI) assumption+

lemma index_Inr:
  assumes "i < length xs"
  shows "index xs (int i) = Inr (xs ! i)"
  using assms by (simp add: index_def)

lemma trial_job_Inr:
  assumes "i < length (conv_sizes hp)" "i < length (fc_sizes hp)" "i < length (dropout hp)"
    "i < length (optimizer hp)" "i < length (lr hp)"
  shows "\<exists>job. trial_job cfg cdir hp (int i) = Inr job \<and>
           arg_checkpoint_file job = checkpoint_file cdir (int i)"
  unfolding trial_job_def
  by (simp only: index_Inr[OF assms(1)] index_Inr[OF assms(2)] index_Inr[OF assms(3)]
      index_Inr[OF assms(4)] index_Inr[OF assms(5)] bind_err_def sum.case) simp

lemma dispatch_loop_appends:
  assumes "\<forall>i\<in>set idxs. \<exists>job. trial_job cfg cdir hp i = Inr job"
  shows "\<exists>new lv'. dispatch_loop ap cfg cdir hp idxs results lv = Inr (results @ new, lv') \<and>
           length new = length idxs"
  using assms
proof (induction idxs arbitrary: results lv)
  case Nil
  show ?case by simp
next
  case (Cons ihp rest)
  from Cons.prems obtain job where job: "trial_job cfg cdir hp ihp = Inr job" by auto
  obtain result lv1 where ap: "ap lv job = (result, lv1)" by (cases "ap lv job")
  from Cons.prems have "\<forall>i\<in>set rest. \<exists>job. trial_job cfg cdir hp i = Inr job" by simp
  from Cons.IH[OF this, of "results @ [result]" lv1]
  obtain new lv' where new:
    "dispatch_loop ap cfg cdir hp rest (results @ [result]) lv1 = Inr ((results @ [result]) @ new, lv')"
    "length new = length rest" by blast
  have "dispatch_loop ap cfg cdir hp (ihp # rest) results lv = Inr (results @ (result # new), lv')"
    using job ap new(1) by simp
  moreover have "length (result # new) = length (ihp # rest)" using new(2) by simp
  ultimately show ?case by blast
qed

lemma dispatch_loop_queue:
  assumes "\<forall>i\<in>set idxs. \<exists>job. trial_job cfg cdir hp i = Inr job"
  shows "\<exists>new jobs. dispatch_loop queue_apply cfg cdir hp idxs results queue =
             Inr (results @ new, queue @ jobs) \<and>
           length new = length idxs \<and> (\<forall>k<length idxs. new ! k = length queue + k) \<and>
           list_all2 (\<lambda>i job. trial_job cfg cdir hp i = Inr job) idxs jobs"
  using assms
proof (induction idxs arbitrary: results queue)
  case Nil
  show ?case by simp
next
  case (Cons ihp rest)
  from Cons.prems obtain job where job: "trial_job cfg cdir hp ihp = Inr job" by auto
  from Cons.prems have "\<forall>i\<in>set rest. \<exists>job. trial_job cfg cdir hp i = Inr job" by simp
  from Cons.IH[OF this, of "results @ [length queue]" "queue @ [job]"]
  obtain new jobs where jobs:
    "dispatch_loop queue_apply cfg cdir hp rest (results @ [length queue]) (queue @ [job]) =
       Inr ((results @ [length queue]) @ new, (queue @ [job]) @ jobs)"
    "length new = length rest"
    "\<forall>k<length rest. new ! k = length (queue @ [job]) + k"
    "list_all2 (\<lambda>i job. trial_job cfg cdir hp i = Inr job) rest jobs" by blast
  have run: "dispatch_loop queue_apply cfg cdir hp (ihp # rest) results queue =
      Inr (results @ (length queue # new), queue @ (job # jobs))"
    using job jobs(1) by (simp add: queue_apply_def)
  have len: "length (length queue # new) = length (ihp # rest)" using jobs(2) by simp
  have nth: "\<forall>k<length (ihp # rest). (length queue # new) ! k = length queue + k"
  proof (intro allI impI)
    fix k assume "k < length (ihp # rest)"
    then show "(length queue # new) ! k = length queue + k"
      using jobs(3) by (cases k) simp_all
  qed
  have all2: "list_all2 (\<lambda>i job. trial_job cfg cdir hp i = Inr job) (ihp # rest) (job # jobs)"
    using job jobs(4) by simp
  show ?case using run len nth all2 by blast
qed

lemma trial_jobs_of_samples:
  assumes "length (conv_sizes hp) = n" "length (fc_sizes hp) = n" "length (dropout hp) = n"
    "length (optimizer hp) = n" "length (lr hp) = n" "i < n"
  shows "\<exists>job. trial_job cfg cdir hp (int i) = Inr job \<and>
           arg_checkpoint_file job = checkpoint_file cdir (int i)"
  using assms by (intro trial_job_Inr) simp_all

lemma cell10_queue:
  assumes "length (conv_sizes hp) = nat N" "length (fc_sizes hp) = nat N"
    "length (dropout hp) = nat N" "length (optimizer hp) = nat N" "length (lr hp) = nat N"
  shows "\<exists>results queue. cell10 queue_apply cfg cdir hp N [] = Inr (results, queue) \<and>
           length results = nat N \<and> length queue = nat N \<and>
           (\<forall>i<nat N. results ! i = i \<and> trial_job cfg cdir hp (int i) = Inr (queue ! i) \<and>
                arg_checkpoint_file (queue ! i) = checkpoint_file cdir (int i))"
proof -
  have ok: "\<forall>i\<in>set (py_range N). \<exists>job. trial_job cfg cdir hp i = Inr job"
  proof
    fix i assume "i \<in> set (py_range N)"
    then obtain k where k: "i = int k" "k < nat N" by (auto simp: py_range_def)
    from trial_jobs_of_samples[OF assms k(2), of cfg cdir] show "\<exists>job. trial_job cfg cdir hp i = Inr job"
      unfolding k(1) by blast
  qed
  have len: "length (py_range N) = nat N" by (simp add: py_range_def)
  from dispatch_loop_queue[OF ok, of "[]" "[]"] obtain new jobs where jobs:
    "dispatch_loop queue_apply cfg cdir hp (py_range N) [] [] = Inr (new, jobs)"
    "length new = nat N" "\<forall>k<nat N. new ! k = k"
    "list_all2 (\<lambda>i job. trial_job cfg cdir hp i = Inr job) (py_range N) jobs"
    unfolding len by auto
  have lj: "length jobs = nat N" using jobs(4) len by (simp add: list_all2_lengthD[symmetric])
  have each: "new ! i = i \<and> trial_job cfg cdir hp (int i) = Inr (jobs ! i) \<and>
      arg_checkpoint_file (jobs ! i) = checkpoint_file cdir (int i)" if "i < nat N" for i
  proof -
    have "trial_job cfg cdir hp (py_range N ! i) = Inr (jobs ! i)"
      using jobs(4) that len by (simp add: list_all2_conv_all_nth)
    then have t: "trial_job cfg cdir hp (int i) = Inr (jobs ! i)"
      using that by (simp add: py_range_def)
    then show ?thesis using trial_jobs_of_samples[OF assms that, of cfg cdir] jobs(3) that by simp
  qed
  have "cell10 queue_apply cfg cdir hp N [] = Inr (new, jobs)"
    using jobs(1) by (simp add: cell10_def)
  then show ?thesis using jobs(2) lj each by blast
qed

text \<open>
  C3: for every trial count N \<ge> 0 the loop submits N jobs, the job at position i carries
  the checkpoint path computed from i, and the checkpoint paths of the submitted jobs are
  pairwise distinct; the paths computed from two different trial indices always differ.
\<close>

theorem checkpoint_paths_distinct:
  assumes "0 \<le> N"
  shows "\<exists>hp g' results queue. sample_generator N g = Inr (hp, g') \<and>
           cell10 queue_apply cfg cdir hp N [] = Inr (results, queue) \<and>
           length queue = nat N \<and>
           (\<forall>i<nat N. arg_checkpoint_file (queue ! i) = checkpoint_file cdir (int i)) \<and>
           distinct (map arg_checkpoint_file queue) \<and>
           (\<forall>i j. i \<noteq> j \<longrightarrow> checkpoint_file cdir i \<noteq> checkpoint_file cdir j)"
proof -
  from sample_generator_lengths[OF assms, of g] obtain hp g' where
    gen: "sample_generator N g = Inr (hp, g')" and
    len: "length (conv_sizes hp) = nat N" "length (fc_sizes hp) = nat N"
      "length (dropout hp) = nat N" "length (optimizer hp) = nat N" "length (lr hp) = nat N"
    by blast
  from cell10_queue[OF len, of cfg cdir] obtain results queue where
    run: "cell10 queue_apply cfg cdir hp N [] = Inr (results, queue)" and
    lq: "length queue = nat N" and
    paths: "\<forall>i<nat N. arg_checkpoint_file (queue ! i) = checkpoint_file cdir (int i)"
    by blast
  have inj: "\<forall>i j. i \<noteq> j \<longrightarrow> checkpoint_file cdir i \<noteq> checkpoint_file cdir j"
    by (simp add: checkpoint_file_inj)
  have "distinct (map arg_checkpoint_file queue)"
    unfolding distinct_conv_nth using lq paths by (simp add: checkpoint_file_inj)
  then show ?thesis using gen run lq paths inj by blast
qed

text \<open>
  C6: for every trial count N \<ge> 0 and every submission function, the loop returns and
  the list of handles has length N; with the pool as the queue of submitted descriptors
  the number of handles equals the number of descriptors submitted.
\<close>

theorem dispatch_loop_one_handle_per_trial:
  assumes "0 \<le> N"
  shows "\<exists>hp g'. sample_generator N g = Inr (hp, g') \<and>
           (\<exists>results lv'. cell10 lv_apply cfg cdir hp N lv = Inr (results, lv') \<and>
               length results = nat N) \<and>
           (\<exists>results queue. cell10 queue_apply cfg cdir hp N [] = Inr (results, queue) \<and>
               length results = length queue \<and> length queue = nat N)"
proof -
  from sample_generator_lengths[OF assms, of g] obtain hp g' where
    gen: "sample_generator N g = Inr (hp, g')" and
    len: "length (conv_sizes hp) = nat N" "length (fc_sizes hp) = nat N"
      "length (dropout hp) = nat N" "length (optimizer hp) = nat N" "length (lr hp) = nat N"
    by blast
  have ok: "\<forall>i\<in>set (py_range N). \<exists>job. trial_job cfg cdir hp i = Inr job"
  proof
    fix i assume "i \<in> set (py_range N)"
    then obtain k where k: "i = int k" "k < nat N" by (auto simp: py_range_def)
    from trial_jobs_of_samples[OF len k(2), of cfg cdir] show "\<exists>job. trial_job cfg cdir hp i = Inr job"
      unfolding k(1) by blast
  qed
  from dispatch_loop_appends[OF ok, of lv_apply "[]" lv] obtain new lv' where
    "dispatch_loop lv_apply cfg cdir hp (py_range N) [] lv = Inr (new, lv')"
    "length new = length (py_range N)" by auto
  then have a: "\<exists>results lv'. cell10 lv_apply cfg cdir hp N lv = Inr (results, lv') \<and>
               length results = nat N"
    by (simp add: cell10_def py_range_def)
  from cell10_queue[OF len, of cfg cdir] obtain results queue where
    "cell10 queue_apply cfg cdir hp N [] = Inr (results, queue)"
    "length results = nat N" "length queue = nat N"
    by blast
  then have b: "\<exists>results queue. cell10 queue_apply cfg cdir hp N [] = Inr (results, queue) \<and>
               length results = length queue \<and> length queue = nat N"
    by simp
  show ?thesis using gen a b by blast
qed


text \<open>The theorem at the notebook's own trial count, 32, and its configuration.\<close>

theorem checkpoint_paths_distinct_witness:
  "0 \<le> n_hpo_trials \<and>
   (\<exists>hp g' results queue. sample_generator n_hpo_trials (\<lambda>i. 7 * i + 3) = Inr (hp, g') \<and>
      cell10 queue_apply notebook_config ''/scratch/rpv_hpo_24194075'' hp n_hpo_trials [] =
        Inr (results, queue) \<and>
      length queue = nat n_hpo_trials \<and>
      (\<forall>i<nat n_hpo_trials. arg_checkpoint_file (queue ! i) =
          checkpoint_file ''/scratch/rpv_hpo_24194075'' (int i)) \<and>
      distinct (map arg_checkpoint_file queue) \<and>
      (\<forall>i j. i \<noteq> j \<longrightarrow> checkpoint_file ''/scratch/rpv_hpo_24194075'' i \<noteq>
          checkpoint_file ''/scratch/rpv_hpo_24194075'' j))"
proof -
  have h: "0 \<le> n_hpo_trials" by (simp add: n_hpo_trials_def)
  show ?thesis
    using h checkpoint_paths_distinct[OF h, of "\<lambda>i. 7 * i + 3" notebook_config
        "''/scratch/rpv_hpo_24194075''"]
    by (intro conjI) assumption+
qed

text \<open>The theorem at 32 trials, with a pool that counts its submissions.\<close>

theorem dispatch_loop_one_handle_per_trial_witness:
  "0 \<le> n_hpo_trials \<and>
   (\<exists>hp g'. sample_generator n_hpo_trials (\<lambda>i. 7 * i + 3) = Inr (hp, g') \<and>
      (\<exists>results lv'. cell10 (\<lambda>lv job. (arg_checkpoint_file job, Suc lv)) notebook_config
            ''/scratch/rpv_hpo_24194075'' hp n_hpo_trials (0::nat) = Inr (results, lv') \<and>
          length results = nat n_hpo_trials) \<and>
      (\<exists>results queue. cell10 queue_apply notebook_config ''/scratch/rpv_hpo_24194075'' hp
            n_hpo_trials [] = Inr (results, queue) \<and>
          length results = length queue \<and> length queue = nat n_hpo_trials))"
proof -
  have h: "0 \<le> n_hpo_trials" by (simp add: n_hpo_trials_def)
  show ?thesis
    using h dispatch_loop_one_handle_per_trial[OF h, of "\<lambda>i. 7 * i + 3"
        "\<lambda>lv job. (arg_checkpoint_file job, Suc lv)" notebook_config
        "''/scratch/rpv_hpo_24194075''" "0::nat"]
    by (intro conjI) assumption+
qed

text \<open>
  C5: for every trial count N \<ge> 0 the Sample Generator returns arrays of exactly N
  entries each, and every entry lies in its candidate set: the three convolution widths
  of a row in {4,8,16,32,64}, {4,8,16,32,64} and {8,16,32,64,128}, the fully-connected
  width in {32,64,128,256}, the learning rate in {0.0001,0.001,0.01}, the dropout rate in
  [0,1) and the optimizer name in {Adadelta, Adam, Nadam}.
\<close>

theorem sample_generator_in_range:
  assumes "0 \<le> N"
  shows "\<exists>hp g'. sample_generator N g = Inr (hp, g') \<and>
      length (conv_sizes hp) = nat N \<and> length (fc_sizes hp) = nat N \<and>
      length (lr hp) = nat N \<and> length (dropout hp) = nat N \<and>
      length (optimizer hp) = nat N \<and>
      (\<forall>row\<in>set (conv_sizes hp). \<exists>a b c. row = [a, b, c] \<and> a \<in> {4, 8, 16, 32, 64} \<and>
          b \<in> {4, 8, 16, 32, 64} \<and> c \<in> {8, 16, 32, 64, 128}) \<and>
      (\<forall>row\<in>set (fc_sizes hp). \<exists>x. row = [x] \<and> x \<in> {32, 64, 128, 256}) \<and>
      (\<forall>r\<in>set (lr hp). r \<in> {0.0001, 0.001, 0.01}) \<and>
      (\<forall>d\<in>set (dropout hp). 0 \<le> d \<and> d < 1) \<and>
      (\<forall>s\<in>set (optimizer hp). s \<in> {''Adadelta'', ''Adam'', ''Nadam''})"
  using assms by (rule sample_generator_total)

text \<open>The theorem at the notebook's own trial count, 32.\<close>

theorem sample_generator_in_range_witness:
  "0 \<le> n_hpo_trials \<and>
   (\<exists>hp g'. sample_generator n_hpo_trials (\<lambda>i. 7 * i + 3) = Inr (hp, g') \<and>
      length (conv_sizes hp) = nat n_hpo_trials \<and> length (fc_sizes hp) = nat n_hpo_trials \<and>
      length (lr hp) = nat n_hpo_trials \<and> length (dropout hp) = nat n_hpo_trials \<and>
      length (optimizer hp) = nat n_hpo_trials \<and>
      (\<forall>row\<in>set (conv_sizes hp). \<exists>a b c. row = [a, b, c] \<and> a \<in> {4, 8, 16, 32, 64} \<and>
          b \<in> {4, 8, 16, 32, 64} \<and> c \<in> {8, 16, 32, 64, 128}) \<and>
      (\<forall>row\<in>set (fc_sizes hp). \<exists>x. row = [x] \<and> x \<in> {32, 64, 128, 256}) \<and>
      (\<forall>r\<in>set (lr hp). r \<in> {0.0001, 0.001, 0.01}) \<and>
      (\<forall>d\<in>set (dropout hp). 0 \<le> d \<and> d < 1) \<and>
      (\<forall>s\<in>set (optimizer hp). s \<in> {''Adadelta'', ''Adam'', ''Nadam''}))"
proof -
  have h: "0 \<le> n_hpo_trials" by (simp add: n_hpo_trials_def)
  show ?thesis
    using h sample_generator_in_range[OF h, of "\<lambda>i. 7 * i + 3"]
    by (intro conjI) assumption+
qed

subsection \<open>Lemmas about the Result Collector\<close>

lemma ar_get_Inr_iff: "ar_get outcome ar = Some (Inr h) \<longleftrightarrow> outcome ar = Some (Inr h)"
  by (simp add: ar_get_def split: option.splits sum.splits)

lemma ar_get_Inl: "outcome ar = Some (Inl ename) \<Longrightarrow> ar_get outcome ar = Some (Inl (RemoteError ename))"
  by (simp add: ar_get_def)

lemma result_collector_Inr_iff:
  "result_collector get ars = Some (Inr hs) \<longleftrightarrow> list_all2 (\<lambda>ar h. get ar = Some (Inr h)) ars hs"
proof (induction ars arbitrary: hs)
  case Nil
  show ?case by auto
next
  case (Cons ar ars)
  show ?case
  proof (cases hs)
    case Nil
    then show ?thesis by (simp split: option.splits sum.splits)
  next
    case (Cons h hs')
    then show ?thesis
      using Cons.IH[of hs'] by (auto split: option.splits sum.splits)
  qed
qed

lemma result_collector_first_failure:
  assumes "k < length ars" "get (ars ! k) = Some (Inl e)"
    "\<forall>i<k. \<exists>h. get (ars ! i) = Some (Inr h)"
  shows "result_collector get ars = Some (Inl e)"
  using assms
proof (induction ars arbitrary: k)
  case Nil
  then show ?case by simp
next
  case (Cons ar ars)
  show ?case
  proof (cases k)
    case 0
    then show ?thesis using Cons.prems(2) by simp
  next
    case (Suc k')
    have "\<exists>h. get ((ar # ars) ! 0) = Some (Inr h)" using Cons.prems(3) Suc by blast
    then obtain h where h: "get ar = Some (Inr h)" by auto
    have "\<forall>i<k'. \<exists>h. get (ars ! i) = Some (Inr h)"
    proof (intro allI impI)
      fix i assume "i < k'"
      then have "Suc i < k" using Suc by simp
      then have "\<exists>h. get ((ar # ars) ! Suc i) = Some (Inr h)" using Cons.prems(3) by blast
      then show "\<exists>h. get (ars ! i) = Some (Inr h)" by simp
    qed
    moreover have "k' < length ars" "get (ars ! k') = Some (Inl e)"
      using Cons.prems(1,2) Suc by simp_all
    ultimately have "result_collector get ars = Some (Inl e)"
      using Cons.IH[of k'] by blast
    then show ?thesis using h by simp
  qed
qed

text \<open>
  C4: the Result Collector returns a list of histories exactly when that list has the
  length of the handle list and its entry at every position i is the value returned by
  the job behind the handle at position i.
\<close>

theorem result_collector_preserves_order:
  "cell13 outcome results = Some (Inr histories) \<longleftrightarrow>
     length histories = length results \<and>
     (\<forall>i<length results. outcome (results ! i) = Some (Inr (histories ! i)))"
  unfolding cell13_def result_collector_Inr_iff list_all2_conv_all_nth ar_get_Inr_iff
  by auto

text \<open>Three handles whose jobs return ten times the handle.\<close>

theorem result_collector_preserves_order_witness:
  "cell13 (\<lambda>ar. Some (Inr (10 * ar))) [0, 1, 2 :: nat] = Some (Inr [0, 10, 20 :: nat]) \<and>
   length [0, 10, 20 :: nat] = length [0, 1, 2 :: nat]"
  using result_collector_preserves_order[of "\<lambda>ar. Some (Inr (10 * ar))" "[0, 1, 2 :: nat]"
      "[0, 10, 20 :: nat]"]
  by (simp add: All_less_Suc numeral_3_eq_3)

text \<open>
  C7: when the job behind the handle at position k raised, fetching that handle raises
  the error locally and the collector never returns a list of histories. When the
  handles before k all returned, the collector raises that error, whatever handles
  follow position k: they are not fetched.
\<close>

theorem result_collector_aborts:
  assumes "k < length results" "outcome (results ! k) = Some (Inl ename)"
  shows "ar_get outcome (results ! k) = Some (Inl (RemoteError ename)) \<and>
         (\<forall>hs. cell13 outcome results \<noteq> Some (Inr hs)) \<and>
         ((\<forall>i<k. \<exists>h. outcome (results ! i) = Some (Inr h)) \<longrightarrow>
            cell13 outcome results = Some (Inl (RemoteError ename)) \<and>
            (\<forall>rest. cell13 outcome (take (Suc k) results @ rest) = Some (Inl (RemoteError ename))))"
proof (intro conjI allI impI)
  show raised: "ar_get outcome (results ! k) = Some (Inl (RemoteError ename))"
    using assms(2) by (rule ar_get_Inl)
  show "cell13 outcome results \<noteq> Some (Inr hs)" for hs
  proof
    assume "cell13 outcome results = Some (Inr hs)"
    then have "list_all2 (\<lambda>ar h. ar_get outcome ar = Some (Inr h)) results hs"
      by (simp add: cell13_def result_collector_Inr_iff)
    then have "ar_get outcome (results ! k) = Some (Inr (hs ! k))"
      using assms(1) by (simp add: list_all2_conv_all_nth)
    then show False using raised by simp
  qed
  assume before: "\<forall>i<k. \<exists>h. outcome (results ! i) = Some (Inr h)"
  then have before': "\<forall>i<k. \<exists>h. ar_get outcome (results ! i) = Some (Inr h)"
    by (simp add: ar_get_Inr_iff)
  show "cell13 outcome results = Some (Inl (RemoteError ename))"
    unfolding cell13_def
    using assms(1) raised before' by (rule result_collector_first_failure)
  show "cell13 outcome (take (Suc k) results @ rest) = Some (Inl (RemoteError ename))" for rest
    unfolding cell13_def
  proof (rule result_collector_first_failure[where k = k])
    show "k < length (take (Suc k) results @ rest)" using assms(1) by simp
    show "ar_get outcome ((take (Suc k) results @ rest) ! k) = Some (Inl (RemoteError ename))"
      using assms(1) raised by (simp add: nth_append)
    show "\<forall>i<k. \<exists>h. ar_get outcome ((take (Suc k) results @ rest) ! i) = Some (Inr h)"
      using assms(1) before' by (simp add: nth_append)
  qed
qed


text \<open>Three handles; the job behind the second one raised.\<close>

theorem result_collector_aborts_witness:
  "ar_get (\<lambda>ar. if ar = 1 then Some (Inl ''ValueError'') else Some (Inr (10 * ar)))
      ([0, 1, 2 :: nat] ! 1) = Some (Inl (RemoteError ''ValueError'')) \<and>
   (\<forall>hs. cell13 (\<lambda>ar. if ar = 1 then Some (Inl ''ValueError'') else Some (Inr (10 * ar)))
      [0, 1, 2 :: nat] \<noteq> Some (Inr (hs :: nat list))) \<and>
   cell13 (\<lambda>ar. if ar = 1 then Some (Inl ''ValueError'') else Some (Inr (10 * ar)))
      [0, 1, 2 :: nat] = Some (Inl (RemoteError ''ValueError'') :: error + nat list) \<and>
   (\<forall>rest. cell13 (\<lambda>ar. if ar = 1 then Some (Inl ''ValueError'') else Some (Inr (10 * ar)))
      (take (Suc 1) [0, 1, 2 :: nat] @ rest) = Some (Inl (RemoteError ''ValueError'') :: error + nat list))"
  using result_collector_aborts[of 1 "[0, 1, 2 :: nat]"
      "\<lambda>ar. if ar = 1 then Some (Inl ''ValueError'') else Some (Inr (10 * ar))" "''ValueError''"]
  by simp

subsection \<open>Lemmas about the Evaluator\<close>






subsection \<open>Lemmas about the path of the evaluated artifact\<close>

lemma trial_job_path:
  assumes "trial_job cfg cdir hp ihp = Inr job"
  shows "arg_checkpoint_file job = checkpoint_file cdir ihp"
  using assms unfolding trial_job_def bind_err_Inr_iff by auto

lemma dispatch_loop_queue_Inr:
  assumes "dispatch_loop queue_apply cfg cdir hp idxs results queue = Inr (results', queue')"
  shows "\<exists>new jobs. results' = results @ new \<and> queue' = queue @ jobs \<and>
           length new = length idxs \<and>
           list_all2 (\<lambda>i job. trial_job cfg cdir hp i = Inr job) idxs jobs"
  using assms
proof (induction idxs arbitrary: results queue)
  case Nil
  then show ?case by simp
next
  case (Cons ihp rest)
  from Cons.prems obtain job where job: "trial_job cfg cdir hp ihp = Inr job"
    by (cases "trial_job cfg cdir hp ihp") simp_all
  have "dispatch_loop queue_apply cfg cdir hp rest (results @ [length queue]) (queue @ [job]) =
      Inr (results', queue')"
  proof -
    have "queue_apply queue job = (length queue, queue @ [job])" by (simp add: queue_apply_def)
    then show ?thesis using Cons.prems job by simp
  qed
  from Cons.IH[OF this] obtain new jobs where
    r: "results' = (results @ [length queue]) @ new" and q: "queue' = (queue @ [job]) @ jobs" and
    l: "length new = length rest" and
    a: "list_all2 (\<lambda>i job. trial_job cfg cdir hp i = Inr job) rest jobs" by blast
  have "results' = results @ (length queue # new)" using r by simp
  moreover have "queue' = queue @ (job # jobs)" using q by simp
  moreover have "length (length queue # new) = length (ihp # rest)" using l by simp
  moreover have "list_all2 (\<lambda>i job. trial_job cfg cdir hp i = Inr job) (ihp # rest) (job # jobs)"
    using job a by simp
  ultimately show ?case by blast
qed

lemma cell10_queue_Inr:
  assumes "cell10 queue_apply cfg cdir hp N [] = Inr (results, queue)"
  shows "length results = length queue \<and>
         (\<forall>i<length queue. arg_checkpoint_file (queue ! i) = checkpoint_file cdir (int i))"
proof -
  from dispatch_loop_queue_Inr[OF assms[unfolded cell10_def]] obtain new jobs where
    r: "results = new" and q: "queue = jobs" and l: "length new = length (py_range N)" and
    a: "list_all2 (\<lambda>i job. trial_job cfg cdir hp i = Inr job) (py_range N) jobs" by auto
  have lq: "length queue = length (py_range N)" using a q by (simp add: list_all2_lengthD)
  have "arg_checkpoint_file (queue ! i) = checkpoint_file cdir (int i)" if "i < length queue" for i
  proof -
    have "trial_job cfg cdir hp (py_range N ! i) = Inr (queue ! i)"
      using a q that lq by (simp add: list_all2_conv_all_nth)
    moreover have "py_range N ! i = int i" using that lq by (simp add: py_range_def)
    ultimately show ?thesis using trial_job_path by simp
  qed
  then show ?thesis using r l lq by simp
qed

lemma run_jobs_lookup:
  assumes "job \<in> set order"
    and "\<forall>j\<in>set order. arg_checkpoint_file j = arg_checkpoint_file job \<longrightarrow> j = job"
  shows "run_jobs train order fs (arg_checkpoint_file job) = Some (train job)"
  using assms
proof (induction order rule: rev_induct)
  case Nil
  then show ?case by simp
next
  case (snoc j order)
  show ?case
  proof (cases "arg_checkpoint_file j = arg_checkpoint_file job")
    case True
    then have "j = job" using snoc.prems(2) by simp
    then show ?thesis by (simp add: run_jobs_def persist_def)
  next
    case False
    then have "job \<in> set order" using snoc.prems(1) by auto
    moreover have "\<forall>j\<in>set order. arg_checkpoint_file j = arg_checkpoint_file job \<longrightarrow> j = job"
      using snoc.prems(2) by simp
    ultimately have "run_jobs train order fs (arg_checkpoint_file job) = Some (train job)"
      by (rule snoc.IH)
    then show ?thesis using False by (simp add: run_jobs_def persist_def)
  qed
qed

lemma model_selector_Inr:
  assumes "model_selector histories = Inr (best, worst)"
  shows "\<exists>bs. best_scores histories = Inr bs \<and> argmax bs = Inr best \<and>
           length bs = length histories \<and> best < length bs"
proof -
  from assms obtain bs where bs: "best_scores histories = Inr bs" and am: "argmax bs = Inr best"
    unfolding model_selector_def bind_err_Inr_iff by auto
  have len: "length bs = length histories"
    using bs unfolding best_scores_def comprehension_Inr_iff by (simp add: list_all2_lengthD)
  have "bs \<noteq> []" using am by (auto simp: argmax_def)
  from argmax_Inr[OF this] am have "best < length bs" by auto
  then show ?thesis using bs am len by blast
qed

text \<open>
  C9: when the checkpoint directory is the one cell 7 builds, every submitted job i
  carries the path \<open>checkpoint_dir/model_i.h5\<close>; the Evaluator's model file for the
  index the Model Selector reports as best is the path of the job at that index; and,
  once the queued jobs have run in any order and each has persisted its artifact at its
  path, the Evaluator loads the artifact of that job.
\<close>

theorem evaluator_loads_best_trial:
  assumes dir: "checkpoint_dir environ jid = Inr cdir"
    and run: "cell10 queue_apply cfg cdir hp N [] = Inr (results, queue)"
    and col: "cell13 outcome results = Some (Inr histories)"
    and sel: "model_selector histories = Inr (best, worst)"
    and ord: "set order = set queue"
  shows "(\<forall>i<length queue. arg_checkpoint_file (queue ! i) =
             cdir @ ''/model_'' @ format_i (int i) @ ''.h5'') \<and>
         best < length queue \<and>
         model_file cdir (int best) = arg_checkpoint_file (queue ! best) \<and>
         (\<exists>bs. best_scores histories = Inr bs \<and>
            cell28 (run_jobs train order fs) cdir bs = Inr (train (queue ! best)))"
proof -
  from checkpoint_dir_shape[OF dir] have shape: "cdir \<noteq> []" "last cdir \<noteq> CHR ''/''" by simp_all
  have form: "checkpoint_file cdir i = cdir @ ''/model_'' @ format_i i @ ''.h5''" for i
    using shape by (simp add: checkpoint_file_eq)
  from cell10_queue_Inr[OF run] have lr: "length results = length queue"
    and paths: "\<forall>i<length queue. arg_checkpoint_file (queue ! i) = checkpoint_file cdir (int i)"
    by simp_all
  have lh: "length histories = length results"
    using col unfolding cell13_def result_collector_Inr_iff by (simp add: list_all2_lengthD)
  from model_selector_Inr[OF sel] obtain bs where bs: "best_scores histories = Inr bs"
    and am: "argmax bs = Inr best" and lb: "length bs = length histories"
    and b: "best < length bs" by blast
  have bq: "best < length queue" using b lb lh lr by simp
  have mf: "model_file cdir (int best) = arg_checkpoint_file (queue ! best)"
    using paths bq by (simp add: model_file_def checkpoint_file_def)
  have mem: "queue ! best \<in> set order" using bq ord by simp
  have uniq: "\<forall>j\<in>set order. arg_checkpoint_file j = arg_checkpoint_file (queue ! best) \<longrightarrow>
      j = queue ! best"
  proof (intro ballI impI)
    fix j assume "j \<in> set order" and same: "arg_checkpoint_file j = arg_checkpoint_file (queue ! best)"
    then obtain i where i: "i < length queue" "j = queue ! i"
      using ord by (auto simp: in_set_conv_nth)
    have "checkpoint_file cdir (int i) = checkpoint_file cdir (int best)"
      using same i paths bq by simp
    then have "i = best" by (simp add: checkpoint_file_inj)
    then show "j = queue ! best" using i by simp
  qed
  have "run_jobs train order fs (arg_checkpoint_file (queue ! best)) = Some (train (queue ! best))"
    using mem uniq by (rule run_jobs_lookup)
  then have "cell28 (run_jobs train order fs) cdir bs = Inr (train (queue ! best))"
    using am mf by (simp add: cell28_def bind_err_def)
  then show ?thesis using form paths bq mf bs by auto
qed


text \<open>
  Four trials with the synthetic histories: trial 1 is the best one, the jobs ran in the
  reverse of the order of submission, and the artifact of a job is identified with the
  convolution widths it was trained with.
\<close>

theorem evaluator_loads_best_trial_witness:
  "checkpoint_dir [''SCRATCH'' \<mapsto> ''/scratch''] 7 = Inr ''/scratch/cori-interactive-dl/rpv_hpo_7'' \<and>
   (\<exists>queue.
      cell10 queue_apply notebook_config ''/scratch/cori-interactive-dl/rpv_hpo_7''
        example_samples 4 [] = Inr ([0, 1, 2, 3], queue) \<and>
      cell13 (\<lambda>ar. Some (Inr (synthetic_histories ! ar))) [0, 1, 2, 3] =
        Some (Inr synthetic_histories) \<and>
      model_selector synthetic_histories = Inr (1, 2) \<and>
      1 < length queue \<and>
      arg_checkpoint_file (queue ! 1) = ''/scratch/cori-interactive-dl/rpv_hpo_7/model_1.h5'' \<and>
      model_file ''/scratch/cori-interactive-dl/rpv_hpo_7'' 1 = arg_checkpoint_file (queue ! 1) \<and>
      (\<exists>bs. best_scores synthetic_histories = Inr bs \<and>
         cell28 (run_jobs arg_conv_sizes (rev queue) Map.empty)
           ''/scratch/cori-interactive-dl/rpv_hpo_7'' bs = Inr (arg_conv_sizes (queue ! 1))))"
proof -
  let ?cdir = "''/scratch/cori-interactive-dl/rpv_hpo_7''"
  have dir: "checkpoint_dir [''SCRATCH'' \<mapsto> ''/scratch''] 7 = Inr ?cdir"
    by (simp add: checkpoint_dir_def path_join_def format_i_def dec_nat.simps digit_char_def)
  have "map_sum id fst (cell10 queue_apply notebook_config ?cdir example_samples 4 []) =
      Inr [0, 1, 2, 3]"
    by code_simp
  then obtain queue where
    run: "cell10 queue_apply notebook_config ?cdir example_samples 4 [] = Inr ([0, 1, 2, 3], queue)"
    by (cases "cell10 queue_apply notebook_config ?cdir example_samples 4 []") auto
  have col: "cell13 (\<lambda>ar. Some (Inr (synthetic_histories ! ar))) [0, 1, 2, 3] =
      Some (Inr synthetic_histories)"
    by (simp add: cell13_def ar_get_def synthetic_histories_def)
  have sel: "model_selector synthetic_histories = Inr (1, 2)"
    by (simp add: model_selector_def last_scores_def best_scores_def synthetic_histories_def
        bind_err_def getitem_def py_max_def last_item_def argmax_def argmin_def)
  have ord: "set (rev queue) = set queue" by simp
  have fmt: "format_i 1 = ''1''"
    by (simp add: format_i_def dec_nat.simps digit_char_def)
  note t = evaluator_loads_best_trial[of "[''SCRATCH'' \<mapsto> ''/scratch'']" 7 ?cdir notebook_config
      example_samples 4 "[0, 1, 2, 3]" queue "\<lambda>ar. Some (Inr (synthetic_histories ! ar))"
      synthetic_histories 1 2 "rev queue" arg_conv_sizes Map.empty, OF dir run col sel ord]
  have path: "arg_checkpoint_file (queue ! 1) = ''/scratch/cori-interactive-dl/rpv_hpo_7/model_1.h5''"
    using t fmt by simp
  show ?thesis
    using dir run col sel t path by auto
qed

subsection \<open>Worked examples and the failing branches\<close>

lemma sample_generator_negative:
  assumes "N < 0"
  shows "sample_generator N g = Inl ValueError"
  using assms by (simp add: sample_generator_def choice_def bind_err_def)

lemma cell10_negative:
  assumes "N \<le> 0"
  shows "cell10 lv_apply cfg cdir hp N lv = Inr ([], lv)"
  using assms by (simp add: cell10_def py_range_def)

lemma model_selector_no_histories: "model_selector [] = Inl ValueError"
  by (simp add: model_selector_def last_scores_def best_scores_def bind_err_def argmax_def)

lemma model_selector_no_epochs: "model_selector [[''val_acc'' \<mapsto> []]] = Inl IndexError"
  by (simp add: model_selector_def last_scores_def bind_err_def getitem_def last_item_def)

lemma model_selector_no_val_acc:
  "model_selector [[''loss'' \<mapsto> [0.5 :: real]]] = Inl (KeyError ''val_acc'')"
  by (simp add: model_selector_def last_scores_def bind_err_def getitem_def)

lemma argmax_first_of_ties: "argmax [0.5, 0.9, 0.9 :: real] = Inr 1"
  by (simp add: argmax_def)

lemma argmin_first_of_ties: "argmin [0.5, 0.9, 0.5 :: real] = Inr 0"
  by (simp add: argmin_def)

lemma checkpoint_file_trailing_separator:
  "checkpoint_file ''/scratch/'' 3 = ''/scratch/model_3.h5''"
  by (simp add: checkpoint_file_def path_join_def format_i_def dec_nat.simps digit_char_def)

lemma result_collector_blocks:
  "cell13 (\<lambda>ar. if ar = 1 then None else Some (Inr ar)) [0, 1, 2 :: nat] = None"
  by (simp add: cell13_def ar_get_def)

subsection \<open>Lemmas about the metric summary in the interpreter's state\<close>

lemma reads_only_state:
  assumes "reads_only f"
  shows "f y_true y_pred sw w = (fst (f y_true y_pred sw w), w)"
proof -
  have "snd (f y_true y_pred sw w) = w" using assms by (simp add: reads_only_def)
  then show ?thesis by (metis prod.collapse)
qed

lemma reads_only_result:
  assumes "reads_only f"
    and "heap w y_true = heap w' y_true'" "heap w y_pred = heap w' y_pred'"
    and "map_option (heap w) sw = map_option (heap w') sw'"
  shows "fst (f y_true y_pred sw w) = fst (f y_true' y_pred' sw' w')"
  using assms unfolding reads_only_def by blast

lemma reads_only_same_heap:
  assumes "reads_only f" "heap w' = heap w"
  shows "fst (f y_true y_pred sw w') = fst (f y_true y_pred sw w)"
  using assms(1) by (rule reads_only_result) (simp_all add: assms(2))

lemma reads_only_library_call: "reads_only (library_call m)"
proof -
  have "map_option (\<lambda>a. floats_of (heap w a)) sw = map_option floats_of (map_option (heap w) sw)"
    for w :: world and sw
    by (simp add: option.map_comp comp_def)
  then show ?thesis
    by (simp add: reads_only_def library_call_def)
qed

lemma summarize_metrics_io_run:
  assumes acc: "reads_only (lib_accuracy_score L)"
    and prec: "reads_only (lib_precision_score L)"
    and rec: "reads_only (lib_recall_score L)"
    and w1: "w1 = snd (alloc (greater_than (heap w outputs) threshold) w)"
    and R: "R = report_of (fst (lib_accuracy_score L labels (next_free w) weights w1))
                  (fst (lib_precision_score L labels (next_free w) weights w1))
                  (fst (lib_recall_score L labels (next_free w) weights w1))"
  shows "summarize_metrics_io L labels outputs threshold weights w =
           (fst R, w1\<lparr>stdout := stdout w @ snd R\<rparr>)"
proof -
  let ?pa = "next_free w"
  have al: "alloc (greater_than (heap w outputs) threshold) w = (?pa, w1)"
    by (simp add: w1 alloc_def)
  have out1: "stdout w1 = stdout w" by (simp add: w1 alloc_def)
  have ca: "lib_accuracy_score L labels ?pa weights w1 =
      (fst (lib_accuracy_score L labels ?pa weights w1), w1)"
    using acc by (rule reads_only_state)
  show ?thesis
  proof (cases "fst (lib_accuracy_score L labels ?pa weights w1)")
    case (Inl e)
    have "summarize_metrics_io L labels outputs threshold weights w = (Inl e, w1)"
      unfolding summarize_metrics_io_def al using ca Inl by simp
    moreover have "w1\<lparr>stdout := stdout w @ []\<rparr> = w1" using out1 by simp
    ultimately show ?thesis by (simp add: R report_of_def Inl)
  next
    case a: (Inr a)
    let ?w2 = "print_line (Metric ''Accuracy:   '' a) w1"
    have cp: "lib_precision_score L labels ?pa weights ?w2 =
        (fst (lib_precision_score L labels ?pa weights w1), ?w2)"
      using reads_only_state[OF prec, of labels ?pa weights ?w2]
        reads_only_same_heap[OF prec, of ?w2 w1 labels ?pa weights]
      by (simp add: print_line_def)
    show ?thesis
    proof (cases "fst (lib_precision_score L labels ?pa weights w1)")
      case (Inl e)
      have "summarize_metrics_io L labels outputs threshold weights w = (Inl e, ?w2)"
        unfolding summarize_metrics_io_def al using ca a cp Inl by simp
      moreover have "?w2 = w1\<lparr>stdout := stdout w @ [Metric ''Accuracy:   '' a]\<rparr>"
        using out1 by (simp add: print_line_def)
      ultimately show ?thesis by (simp add: R report_of_def a Inl)
    next
      case p: (Inr p)
      let ?w3 = "print_line (Metric ''Purity:     '' p) ?w2"
      have cr: "lib_recall_score L labels ?pa weights ?w3 =
          (fst (lib_recall_score L labels ?pa weights w1), ?w3)"
        using reads_only_state[OF rec, of labels ?pa weights ?w3]
          reads_only_same_heap[OF rec, of ?w3 w1 labels ?pa weights]
        by (simp add: print_line_def)
      have w3: "?w3 = w1\<lparr>stdout := stdout w @ [Metric ''Accuracy:   '' a, Metric ''Purity:     '' p]\<rparr>"
        using out1 by (simp add: print_line_def)
      show ?thesis
      proof (cases "fst (lib_recall_score L labels ?pa weights w1)")
        case (Inl e)
        have "summarize_metrics_io L labels outputs threshold weights w = (Inl e, ?w3)"
          unfolding summarize_metrics_io_def al using ca a cp p cr Inl by simp
        then show ?thesis using w3 by (simp add: R report_of_def a p Inl)
      next
        case (Inr r)
        have "summarize_metrics_io L labels outputs threshold weights w =
            (Inr (), print_line (Metric ''Efficiency: '' r) ?w3)"
          unfolding summarize_metrics_io_def al using ca a cp p cr Inr by simp
        moreover have "print_line (Metric ''Efficiency: '' r) ?w3 =
            w1\<lparr>stdout := stdout w @ [Metric ''Accuracy:   '' a, Metric ''Purity:     '' p,
                                       Metric ''Efficiency: '' r]\<rparr>"
          using out1 by (simp add: print_line_def)
        ultimately show ?thesis by (simp add: R report_of_def a p Inr)
      qed
    qed
  qed
qed


lemma summarize_metrics_report:
  "summarize_metrics M labels outputs threshold weights out =
     (fst (report_of (accuracy_score M labels (preds outputs threshold) weights)
             (precision_score M labels (preds outputs threshold) weights)
             (recall_score M labels (preds outputs threshold) weights)),
      out @ snd (report_of (accuracy_score M labels (preds outputs threshold) weights)
             (precision_score M labels (preds outputs threshold) weights)
             (recall_score M labels (preds outputs threshold) weights)))"
  by (simp add: summarize_metrics_def report_of_def split: sum.splits)

text \<open>
  The two embeddings of the summary agree: with a library given by its values and the
  outputs a float array, the run in the state returns and prints what the summary on the
  values of the arrays returns and prints.
\<close>

lemma summarize_metrics_io_values:
  assumes os: "heap w outputs = FloatArray os"
    and refs: "labels < next_free w" "case weights of None \<Rightarrow> True | Some a \<Rightarrow> a < next_free w"
  shows "summarize_metrics_io (library_of M) labels outputs threshold weights w =
     (fst (summarize_metrics M (ints_of (heap w labels)) os threshold
             (map_option (\<lambda>a. floats_of (heap w a)) weights) (stdout w)),
      (snd (alloc (greater_than (heap w outputs) threshold) w))
        \<lparr>stdout := snd (summarize_metrics M (ints_of (heap w labels)) os threshold
             (map_option (\<lambda>a. floats_of (heap w a)) weights) (stdout w))\<rparr>)"
proof -
  let ?w1 = "snd (alloc (greater_than (heap w outputs) threshold) w)"
  have h1: "heap ?w1 = (heap w)(next_free w := BoolArray (preds os threshold))"
    by (simp add: alloc_def greater_than_def os preds_def)
  have lab: "heap ?w1 labels = heap w labels" using refs(1) by (simp add: h1)
  have wts: "map_option (\<lambda>a. floats_of (heap ?w1 a)) weights =
      map_option (\<lambda>a. floats_of (heap w a)) weights"
    using refs(2) by (cases weights) (simp_all add: h1)
  have prd: "bools_of (heap ?w1 (next_free w)) = preds os threshold"
    by (simp add: h1 bools_of_def)
  have call: "fst (library_call m labels (next_free w) weights ?w1) =
      m (ints_of (heap w labels)) (preds os threshold)
        (map_option (\<lambda>a. floats_of (heap w a)) weights)" for m
    unfolding library_call_def fst_conv lab wts prd by (rule refl)
  have "summarize_metrics_io (library_of M) labels outputs threshold weights w =
      (fst (report_of (fst (lib_accuracy_score (library_of M) labels (next_free w) weights ?w1))
              (fst (lib_precision_score (library_of M) labels (next_free w) weights ?w1))
              (fst (lib_recall_score (library_of M) labels (next_free w) weights ?w1))),
       ?w1\<lparr>stdout := stdout w @
          snd (report_of (fst (lib_accuracy_score (library_of M) labels (next_free w) weights ?w1))
              (fst (lib_precision_score (library_of M) labels (next_free w) weights ?w1))
              (fst (lib_recall_score (library_of M) labels (next_free w) weights ?w1)))\<rparr>)"
    by (rule summarize_metrics_io_run) (simp_all add: library_of_def reads_only_library_call)
  then show ?thesis
    by (simp add: library_of_def call summarize_metrics_report)
qed

text \<open>
  C8: when the three library functions are read-only, a run of the metric summary on
  allocated arrays, followed by a second run in the state the first one left, returns the
  same result both times and prints the same lines both times; these are the lines of
  the library's results on the labels, the predictions \<open>outputs > threshold\<close> and the
  weights. Both runs leave the state of the random generator and every array allocated
  before the first run as they were.
\<close>

theorem summarize_metrics_repeatable:
  assumes acc: "reads_only (lib_accuracy_score L)"
    and prec: "reads_only (lib_precision_score L)"
    and rec: "reads_only (lib_recall_score L)"
    and lab: "labels < next_free w"
    and outp: "outputs < next_free w"
    and wts: "case weights of None \<Rightarrow> True | Some a \<Rightarrow> a < next_free w"
    and run1: "summarize_metrics_io L labels outputs threshold weights w = (r1, w1)"
    and run2: "summarize_metrics_io L labels outputs threshold weights w1 = (r2, w2)"
  shows "r2 = r1 \<and>
     (\<exists>report. stdout w1 = stdout w @ report \<and> stdout w2 = stdout w1 @ report \<and>
        (r1, report) =
          report_of
            (fst (lib_accuracy_score L labels (next_free w) weights
                    (snd (alloc (greater_than (heap w outputs) threshold) w))))
            (fst (lib_precision_score L labels (next_free w) weights
                    (snd (alloc (greater_than (heap w outputs) threshold) w))))
            (fst (lib_recall_score L labels (next_free w) weights
                    (snd (alloc (greater_than (heap w outputs) threshold) w))))) \<and>
     np_random w1 = np_random w \<and> np_random w2 = np_random w \<and>
     (\<forall>a<next_free w. heap w1 a = heap w a \<and> heap w2 a = heap w a)"
proof -
  let ?P = "greater_than (heap w outputs) threshold"
  let ?pa = "next_free w"
  let ?W1 = "snd (alloc ?P w)"
  let ?R = "report_of (fst (lib_accuracy_score L labels ?pa weights ?W1))
              (fst (lib_precision_score L labels ?pa weights ?W1))
              (fst (lib_recall_score L labels ?pa weights ?W1))"
  have first: "summarize_metrics_io L labels outputs threshold weights w =
      (fst ?R, ?W1\<lparr>stdout := stdout w @ snd ?R\<rparr>)"
    using acc prec rec by (rule summarize_metrics_io_run) simp_all
  then have r1: "r1 = fst ?R" and w1: "w1 = ?W1\<lparr>stdout := stdout w @ snd ?R\<rparr>"
    using run1 by simp_all
  have hW1: "heap ?W1 = (heap w)(?pa := ?P)" by (simp add: alloc_def)
  have hw1: "heap w1 = (heap w)(?pa := ?P)" by (simp add: w1 hW1)
  have nf1: "next_free w1 = Suc ?pa" by (simp add: w1 alloc_def)
  have same_P: "greater_than (heap w1 outputs) threshold = ?P"
    using outp by (simp add: hw1)
  let ?W2 = "snd (alloc ?P w1)"
  have hW2: "heap ?W2 = (heap w)(?pa := ?P, Suc ?pa := ?P)"
    by (simp add: alloc_def hw1 nf1)
  have e1: "heap ?W2 labels = heap ?W1 labels" using lab by (simp add: hW1 hW2)
  have e2: "heap ?W2 (Suc ?pa) = heap ?W1 ?pa" by (simp add: hW1 hW2)
  have e3: "map_option (heap ?W2) weights = map_option (heap ?W1) weights"
    using wts by (cases weights) (simp_all add: hW1 hW2)
  have same: "fst (f labels (Suc ?pa) weights ?W2) = fst (f labels ?pa weights ?W1)"
    if "reads_only f" for f
    using that e1 e2 e3 by (rule reads_only_result)
  have "summarize_metrics_io L labels outputs threshold weights w1 =
      (fst (report_of (fst (lib_accuracy_score L labels (next_free w1) weights
                 (snd (alloc (greater_than (heap w1 outputs) threshold) w1))))
              (fst (lib_precision_score L labels (next_free w1) weights
                 (snd (alloc (greater_than (heap w1 outputs) threshold) w1))))
              (fst (lib_recall_score L labels (next_free w1) weights
                 (snd (alloc (greater_than (heap w1 outputs) threshold) w1))))),
       (snd (alloc (greater_than (heap w1 outputs) threshold) w1))
         \<lparr>stdout := stdout w1 @
            snd (report_of (fst (lib_accuracy_score L labels (next_free w1) weights
                 (snd (alloc (greater_than (heap w1 outputs) threshold) w1))))
              (fst (lib_precision_score L labels (next_free w1) weights
                 (snd (alloc (greater_than (heap w1 outputs) threshold) w1))))
              (fst (lib_recall_score L labels (next_free w1) weights
                 (snd (alloc (greater_than (heap w1 outputs) threshold) w1)))))\<rparr>)"
    using acc prec rec by (rule summarize_metrics_io_run) simp_all
  then have second: "summarize_metrics_io L labels outputs threshold weights w1 =
      (fst ?R, ?W2\<lparr>stdout := stdout w1 @ snd ?R\<rparr>)"
    unfolding same_P nf1 same[OF acc] same[OF prec] same[OF rec] .
  then have r2: "r2 = fst ?R" and w2: "w2 = ?W2\<lparr>stdout := stdout w1 @ snd ?R\<rparr>"
    using run2 by simp_all
  have "r2 = r1" by (simp add: r1 r2)
  moreover have "stdout w1 = stdout w @ snd ?R" by (simp add: w1)
  moreover have "stdout w2 = stdout w1 @ snd ?R" by (simp add: w2)
  moreover have "(r1, snd ?R) = ?R" by (simp add: r1)
  moreover have "np_random w1 = np_random w" by (simp add: w1 alloc_def)
  moreover have "np_random w2 = np_random w" by (simp add: w2 w1 alloc_def)
  moreover have "\<forall>a<?pa. heap w1 a = heap w a \<and> heap w2 a = heap w a"
    by (simp add: hw1 w2 hW2)
  ultimately show ?thesis by blast
qed


text \<open>
  The worked example: four samples, weighted, at the default threshold, with the textbook
  metrics. The predictions are True, True, False, False, so the weighted accuracy is
  1/5 and purity and efficiency are 1/3; the second run prints the same three lines.
\<close>

theorem summarize_metrics_repeatable_witness:
  "fst (summarize_metrics_io (library_of textbook_metrics) 0 1 default_threshold (Some 2)
          example_world) = Inr () \<and>
   fst (summarize_metrics_io (library_of textbook_metrics) 0 1 default_threshold (Some 2)
          (snd (summarize_metrics_io (library_of textbook_metrics) 0 1 default_threshold (Some 2)
                  example_world))) = Inr () \<and>
   stdout (snd (summarize_metrics_io (library_of textbook_metrics) 0 1 default_threshold (Some 2)
          example_world)) =
     [Metric ''Accuracy:   '' (1 / 5), Metric ''Purity:     '' (1 / 3),
      Metric ''Efficiency: '' (1 / 3)] \<and>
   stdout (snd (summarize_metrics_io (library_of textbook_metrics) 0 1 default_threshold (Some 2)
          (snd (summarize_metrics_io (library_of textbook_metrics) 0 1 default_threshold (Some 2)
                  example_world)))) =
     [Metric ''Accuracy:   '' (1 / 5), Metric ''Purity:     '' (1 / 3),
      Metric ''Efficiency: '' (1 / 3),
      Metric ''Accuracy:   '' (1 / 5), Metric ''Purity:     '' (1 / 3),
      Metric ''Efficiency: '' (1 / 3)] \<and>
   np_random (snd (summarize_metrics_io (library_of textbook_metrics) 0 1 default_threshold (Some 2)
          (snd (summarize_metrics_io (library_of textbook_metrics) 0 1 default_threshold (Some 2)
                  example_world)))) = np_random example_world \<and>
   heap (snd (summarize_metrics_io (library_of textbook_metrics) 0 1 default_threshold (Some 2)
          (snd (summarize_metrics_io (library_of textbook_metrics) 0 1 default_threshold (Some 2)
                  example_world)))) 0 = IntArray [1, 0, 1, 1] \<and>
   heap (snd (summarize_metrics_io (library_of textbook_metrics) 0 1 default_threshold (Some 2)
          (snd (summarize_metrics_io (library_of textbook_metrics) 0 1 default_threshold (Some 2)
                  example_world)))) 1 = FloatArray [0.9, 0.6, 0.5, 0.2] \<and>
   heap (snd (summarize_metrics_io (library_of textbook_metrics) 0 1 default_threshold (Some 2)
          (snd (summarize_metrics_io (library_of textbook_metrics) 0 1 default_threshold (Some 2)
                  example_world)))) 2 = FloatArray [1, 2, 1, 1]"
proof -
  let ?L = "library_of textbook_metrics"
  let ?S = "summarize_metrics_io ?L 0 1 default_threshold (Some 2)"
  have acc: "reads_only (lib_accuracy_score ?L)"
    and prec: "reads_only (lib_precision_score ?L)"
    and rec: "reads_only (lib_recall_score ?L)"
    by (simp_all add: library_of_def reads_only_library_call)
  have lab: "0 < next_free example_world" and outp: "1 < next_free example_world"
    and wts: "case Some 2 of None \<Rightarrow> True | Some a \<Rightarrow> a < next_free example_world"
    by (simp_all add: example_world_def)
  have os: "heap example_world 1 = FloatArray [0.9, 0.6, 0.5, 0.2]"
    and ls: "heap example_world 0 = IntArray [1, 0, 1, 1]"
    and ws: "heap example_world 2 = FloatArray [1, 2, 1, 1]"
    by (simp_all add: example_world_def)
  have pure: "summarize_metrics textbook_metrics [1, 0, 1, 1] [0.9, 0.6, 0.5, 0.2]
      default_threshold (Some [1, 2, 1, 1]) [] =
      (Inr (), [Metric ''Accuracy:   '' (1 / 5), Metric ''Purity:     '' (1 / 3),
                Metric ''Efficiency: '' (1 / 3)])"
    by (simp add: summarize_metrics_def textbook_metrics_def textbook_metric_def
        weights_or_ones_def weight_where_def preds_def default_threshold_def)
  have out0: "stdout example_world = []" by (simp add: example_world_def)
  have first: "fst (?S example_world) = Inr ()"
    "stdout (snd (?S example_world)) =
       [Metric ''Accuracy:   '' (1 / 5), Metric ''Purity:     '' (1 / 3),
        Metric ''Efficiency: '' (1 / 3)]"
    using summarize_metrics_io_values[OF os lab wts, of textbook_metrics default_threshold]
    by (simp_all add: ls ws out0 ints_of_def floats_of_def pure[simplified])
  have run1: "?S example_world = (fst (?S example_world), snd (?S example_world))" by simp
  have run2: "?S (snd (?S example_world)) =
      (fst (?S (snd (?S example_world))), snd (?S (snd (?S example_world))))" by simp
  note t = summarize_metrics_repeatable[OF acc prec rec lab outp wts run1 run2]
  show ?thesis
    using t first os ls ws by (auto simp: example_world_def)
qed

end
